theory Spec2Isabelle
  imports Complex_Main "HOL-Library.Multiset" "HOL-Library.Monad_Syntax"
begin

section \<open>Numbers and arrays of the JavaScript sources\<close>

text \<open>
  A JavaScript number is modelled as a \<^typ>\<open>real\<close>: arithmetic is exact, the rounding of
  IEEE doubles is not part of the model. \<open>Math.round\<close> rounds half up, that is
  \<open>floor (x + 0.5)\<close>. An array is a list; \<open>findIndex\<close> returns \<open>None\<close> where the source
  returns \<open>-1\<close>; a read past the end of an array is \<open>None\<close> where the source reads
  \<open>undefined\<close>.
\<close>

text \<open>
  A JavaScript division never raises: a zero divisor gives \<open>NaN\<close> or an infinity, and
  the square root of a negative number is \<open>NaN\<close>. The model makes that visible: \<open>None\<close> is
  a result that is not a finite number.
\<close>

definition js_divide :: "real \<Rightarrow> real \<Rightarrow> real option" where
  "js_divide a b = (if b = 0 then None else Some (a / b))"

definition js_sqrt :: "real \<Rightarrow> real option" where
  "js_sqrt x = (if x < 0 then None else Some (sqrt x))"

text \<open>
  A store into a \<open>Float32Array\<close> rounds the number to IEEE 754 single precision, as
  \<open>Math.fround\<close> does: to the nearest number with a significand of 24 bits and an
  exponent of at least \<open>-149\<close> for its last bit, a tie going to the even significand;
  a result beyond the largest single (\<open>(2^24 - 1) * 2^104\<close>) is an infinity, here
  \<open>None\<close>. \<open>binaryRound\<close> is that rounding for a significand of \<open>p\<close> bits; with 53 bits
  and \<open>-1074\<close> it is the rounding of a double.
\<close>

definition pow2 :: "int \<Rightarrow> real" where
  "pow2 e = (if 0 \<le> e then 2 ^ nat e else 1 / 2 ^ nat (- e))"

definition roundHalfEven :: "real \<Rightarrow> int" where
  "roundHalfEven q =
     (let f = \<lfloor>q\<rfloor> in
      if q - real_of_int f < 1 / 2 then f
      else if 1 / 2 < q - real_of_int f then f + 1
      else if even f then f else f + 1)"

definition binaryRound :: "nat \<Rightarrow> int \<Rightarrow> real \<Rightarrow> real" where
  "binaryRound p emin x =
     (if x = 0 then 0
      else (let e = max (\<lfloor>log 2 \<bar>x\<bar>\<rfloor> - (int p - 1)) emin
            in real_of_int (roundHalfEven (x / pow2 e)) * pow2 e))"

definition maxFloat32 :: real where
  "maxFloat32 = (2 ^ 24 - 1) * 2 ^ 104"

definition Math_fround :: "real \<Rightarrow> real option" where
  "Math_fround x =
     (let y = binaryRound 24 (- 149) x in if \<bar>y\<bar> \<le> maxFloat32 then Some y else None)"

definition Math_round :: "real \<Rightarrow> int" where
  "Math_round x = \<lfloor>x + 1 / 2\<rfloor>"

fun findIndex :: "('a \<Rightarrow> bool) \<Rightarrow> 'a list \<Rightarrow> nat option" where
  "findIndex P [] = None"
| "findIndex P (x # xs) = (if P x then Some 0 else map_option Suc (findIndex P xs))"

text \<open>\<open>xs.splice(i, 1)\<close>: the element at index \<open>i\<close> is taken out.\<close>

definition splice1 :: "nat \<Rightarrow> 'a list \<Rightarrow> 'a list" where
  "splice1 i xs = take i xs @ drop (Suc i) xs"

definition nth_opt :: "'a list \<Rightarrow> nat \<Rightarrow> 'a option" where
  "nth_opt xs i = (if i < length xs then Some (xs ! i) else None)"

section \<open>The data read by \<open>src/src/main.js\<close>\<close>

text \<open>
  The six parameters that \<open>analyzeRateOfFire\<close> reads from the input fields and hands to
  the detector.
\<close>

record config =
  peakThresholdStd :: real
  minShotSpacing :: real
  burstGapThreshold :: real
  windowSize :: real
  minPeakProminence :: real
  minBurstCount :: int

text \<open>
  The fields of a burst result and of the summary, as \<open>displayROFResults\<close> and
  \<open>ROFVisualizer.render\<close> read them (\<open>meanInterval\<close> is named by the specification only).
\<close>

record burst =
  burstNumber :: nat
  numShots :: nat
  startTime :: real
  endTime :: real
  duration :: real
  meanInterval :: real
  stdInterval :: real
  meanDeviation :: real
  rateRpm :: real

record summary =
  totalShots :: nat
  totalBursts :: nat
  meanBurstRateRpm :: real
  minBurstRateRpm :: real
  maxBurstRateRpm :: real
  avgStdInterval :: real
  avgMeanDeviation :: real

text \<open>
  The detector object, as far as \<open>main.js\<close> and \<open>visualizer.js\<close> touch it. Its class
  (\<open>rof-detector.js\<close>) is not among the sources: every other field it has lives in the
  record's extension, and its methods are parameters of the model (\<open>detector_methods\<close>),
  each one a function that may read and change the whole object.
\<close>

record detector =
  shotTimes :: "real list"
  sampleRate :: real
  audioData :: "real list"

record ('z, 'b, 's) detector_methods =
  groupIntoBursts :: "'z detector_scheme \<Rightarrow> 'z detector_scheme"
  calculateRates :: "'z detector_scheme \<Rightarrow> 'b list \<times> 'z detector_scheme"
  generateSummary :: "'b list \<Rightarrow> 'z detector_scheme \<Rightarrow> 's \<times> 'z detector_scheme"

text \<open>
  \<open>currentResults\<close>: the object spread \<open>{ ...currentResults, summary, bursts, peaks }\<close>
  is a record update, which keeps every other field (here \<open>audioDuration\<close> and the
  record's extension).
\<close>

record ('b, 's) results =
  summary :: 's
  bursts :: "'b list"
  peaks :: "int list"
  audioDuration :: real

text \<open>The module-level variables \<open>detector\<close> and \<open>currentResults\<close>; \<open>None\<close> is \<open>null\<close>.\<close>

record ('z, 'b, 's, 'r) app_state =
  detector :: "'z detector_scheme option"
  currentResults :: "('b, 's, 'r) results_scheme option"

section \<open>The manual edit toggle: \<open>onPeakToggle\<close> (main.js, lines 160 to 178)\<close>

definition tolerance :: real where
  "tolerance = 1 / 100"

text \<open>The predicate of the \<open>findIndex\<close> call: \<open>t => Math.abs(t - clickedTime) < tolerance\<close>.\<close>

definition withinTolerance :: "real \<Rightarrow> real \<Rightarrow> bool" where
  "withinTolerance clickedTime t \<longleftrightarrow> \<bar>t - clickedTime\<bar> < tolerance"

text \<open>
  Lines 162 to 168: what the call does to \<open>detector.shotTimes\<close>. The first shot within the
  tolerance is spliced out, or else the clicked time is pushed; then the array is sorted
  numerically.
\<close>

definition toggleTimes :: "real list \<Rightarrow> real \<Rightarrow> real list" where
  "toggleTimes ts clickedTime =
     sort (case findIndex (withinTolerance clickedTime) ts of
             Some existingPeakIndex \<Rightarrow> splice1 existingPeakIndex ts
           | None \<Rightarrow> ts @ [clickedTime])"

text \<open>Line 169: \<open>detector.shotTimes.map(t => Math.round(t * detector.sampleRate))\<close>.\<close>

definition newPeaks :: "real \<Rightarrow> real list \<Rightarrow> int list" where
  "newPeaks r ts = map (\<lambda>t. Math_round (t * r)) ts"

text \<open>
  The whole handler as a step on the module state. The two calls that draw
  (\<open>displayROFResults\<close>, \<open>visualizer.render\<close>) read the new state and change none of it.
\<close>

definition onPeakToggle ::
  "('z, 'b, 's) detector_methods \<Rightarrow> ('z, 'b, 's, 'r) app_state \<Rightarrow> real
     \<Rightarrow> ('z, 'b, 's, 'r) app_state" where
  "onPeakToggle M st clickedTime =
     (case detector st of
        None \<Rightarrow> st
      | Some d \<Rightarrow>
          (case currentResults st of
             None \<Rightarrow> st
           | Some res \<Rightarrow>
               (let d1 = d\<lparr>shotTimes := toggleTimes (shotTimes d) clickedTime\<rparr>;
                    ps = newPeaks (sampleRate d1) (shotTimes d1);
                    d2 = groupIntoBursts M d1;
                    (burstResults, d3) = calculateRates M d2;
                    (sm, d4) = generateSummary M burstResults d3
                in st\<lparr>detector := Some d4,
                      currentResults :=
                        Some (res\<lparr>summary := sm, bursts := burstResults, peaks := ps\<rparr>)\<rparr>)))"

text \<open>A session of manual edits: the handler's effect on the shot times, click after click.\<close>

definition toggleAll :: "real list \<Rightarrow> real list \<Rightarrow> real list" where
  "toggleAll ts clicks = foldl toggleTimes ts clicks"

text \<open>
  The invariant of a shot set for a recording of \<open>n\<close> samples at rate \<open>r\<close>: the times are
  ascending, no two of them share a sample index, and every time lies on the time axis
  of the recording, \<open>0 \<le> t \<le> (n - 1) / r\<close>.
\<close>

definition onTimeAxis :: "nat \<Rightarrow> real \<Rightarrow> real \<Rightarrow> bool" where
  "onTimeAxis n r t \<longleftrightarrow> 0 \<le> t \<and> t * r \<le> real n - 1"

definition shotSetOk :: "nat \<Rightarrow> real \<Rightarrow> real list \<Rightarrow> bool" where
  "shotSetOk n r ts \<longleftrightarrow>
     sorted ts \<and> distinct (newPeaks r ts) \<and> list_all (onTimeAxis n r) ts"

section \<open>The visualizer: \<open>src/src/visualizer.js\<close>\<close>

text \<open>
  Line 51 of \<open>render\<close>: \<open>results.peaks.map((idx) => idx / sampleRate)\<close>. With a sample
  rate of 0 the quotient is not a finite number, and the entry is \<open>None\<close>.
\<close>

definition peakTimes :: "real \<Rightarrow> int list \<Rightarrow> real option list" where
  "peakTimes r ps = map (\<lambda>idx. js_divide (real_of_int idx) r) ps"

text \<open>
  \<open>createTimeArray\<close> stores \<open>i / sampleRate\<close> in a \<open>Float32Array\<close>: the store rounds the
  quotient to single precision. An entry is \<open>None\<close> where it is not a finite number: the
  quotient by a sample rate of 0, and a quotient beyond the range of a single.
\<close>

definition createTimeArray :: "nat \<Rightarrow> real \<Rightarrow> real option list" where
  "createTimeArray len r =
     map (\<lambda>i. Option.bind (js_divide (real i) r) Math_fround) [0..<len]"

text \<open>
  The loop of \<open>downsample\<close>, \<open>for (let i = 0; i < data.length; i += step)\<close>, with the two
  output arrays as the accumulator. With \<open>step = 0\<close> the source never leaves the loop,
  and the model returns \<open>None\<close>.
\<close>

partial_function (option) downsample_loop ::
  "'a list \<Rightarrow> 'b list \<Rightarrow> nat \<Rightarrow> nat \<Rightarrow> 'a list \<times> 'b option list
     \<Rightarrow> ('a list \<times> 'b option list) option" where
  "downsample_loop data timeArray step i acc =
     (if i < length data
      then downsample_loop data timeArray step (i + step)
             (fst acc @ [data ! i], snd acc @ [nth_opt timeArray i])
      else Some acc)"

text \<open>
  \<open>downsample\<close> for a natural number \<open>maxPoints\<close>. With \<open>maxPoints = 0\<close> and a non-empty
  array the source computes \<open>step = Infinity\<close> and the loop runs once.
\<close>

definition downsample ::
  "'a list \<Rightarrow> 'b list \<Rightarrow> nat \<Rightarrow> ('a list \<times> 'b option list) option" where
  "downsample data timeArray maxPoints =
     (if length data \<le> maxPoints then Some (data, map Some timeArray)
      else if maxPoints = 0 then Some ([data ! 0], [nth_opt timeArray 0])
      else downsample_loop data timeArray (length data div maxPoints) 0 ([], []))"

text \<open>The indices \<open>0, step, 2 * step, ...\<close> below \<open>len\<close>.\<close>

definition strideIndices :: "nat \<Rightarrow> nat \<Rightarrow> nat list" where
  "strideIndices len step = map (\<lambda>j. j * step) [0..<(len + step - 1) div step]"

section \<open>The summary panel: \<open>displayROFResults\<close> (main.js, lines 181 to 285)\<close>

text \<open>
  What the function writes into the page, without the markup: the summary items (label
  and shown value; the tooltips and the build notes are left out), the number of empty
  slots that fill the row up to six, and the burst cards or the message that stands in
  their place. A shown value keeps the number and the way it is printed: as it is,
  through \<open>toFixed\<close> with a number of digits, next to literal text.
\<close>

datatype shown = Number real | ToFixed real nat | Lit string | Cat shown shown

definition COLORS :: "string list" where
  "COLORS = [''#FF6B6B'', ''#4ECDC4'', ''#45B7D1'', ''#FFA07A'', ''#98D8C8'',
             ''#F7DC6F'', ''#BB8FCE'', ''#85C1E2'', ''#F8B739'', ''#52C77C'']"

definition getBurstColor :: "nat \<Rightarrow> string" where
  "getBurstColor index = COLORS ! (index mod length COLORS)"

record burst_card =
  borderColor :: string
  cardBurstNumber :: nat
  cardShots :: nat
  cardRpm :: shown
  cardDuration :: shown
  cardStdDev :: shown
  cardMeanDev :: shown

datatype bursts_panel = BurstCards "burst_card list" | NoBurstsDetected

record display =
  items :: "(string \<times> shown) list"
  emptySlots :: nat
  burstsPanel :: bursts_panel

definition summaryItems :: "summary \<Rightarrow> (string \<times> shown) list" where
  "summaryItems s =
     (if 0 < totalBursts s then
        [(''Total Shots'', Number (real (totalShots s))),
         (''Total Bursts'', Number (real (totalBursts s))),
         (''Avg RPM'', ToFixed (meanBurstRateRpm s) 1),
         (''STD Deviation'', Cat (ToFixed (avgStdInterval s * 1000) 2) (Lit '' ms'')),
         (''Mean Deviation'', Cat (ToFixed (avgMeanDeviation s * 1000) 2) (Lit '' ms'')),
         (''Rate Range'',
            if minBurstRateRpm s \<noteq> maxBurstRateRpm s
            then Cat (ToFixed (minBurstRateRpm s) 0)
                   (Cat (Lit '' - '') (ToFixed (maxBurstRateRpm s) 0))
            else ToFixed (minBurstRateRpm s) 0)]
      else [])"

definition burstCard :: "nat \<Rightarrow> burst \<Rightarrow> burst_card" where
  "burstCard index b =
     \<lparr>borderColor = getBurstColor index,
      cardBurstNumber = burstNumber b,
      cardShots = numShots b,
      cardRpm = ToFixed (rateRpm b) 1,
      cardDuration = Cat (ToFixed (duration b) 3) (Lit ''s''),
      cardStdDev = Cat (ToFixed (stdInterval b * 1000) 2) (Lit ''ms''),
      cardMeanDev = Cat (ToFixed (meanDeviation b * 1000) 2) (Lit ''ms'')\<rparr>"

definition displayROFResults :: "(burst, summary, 'r) results_scheme \<Rightarrow> display" where
  "displayROFResults res =
     \<lparr>items = summaryItems (summary res),
      emptySlots = 6 - length (summaryItems (summary res)),
      burstsPanel =
        (if bursts res \<noteq> []
         then BurstCards (map (\<lambda>(index, b). burstCard index b)
                (zip [0..<length (bursts res)] (bursts res)))
         else NoBurstsDetected)\<rparr>"

section \<open>The analysis kernel, modelled from the specification\<close>

text \<open>
  The detector class (\<open>rof-detector.js\<close>) and its signal processing are not among the
  sources. The definitions of this section follow the words of the specification; each
  says which part of it.
\<close>

text \<open>
  Modelled from the spec: the one error of the kernel that is a failure (section 7,
  \<open>InvalidConfiguration\<close>); the error handling of the detector is missing from the
  sources. \<open>NonFiniteStatistic\<close> is the model's mark for an output that would hold \<open>NaN\<close>
  or an infinity, which section 7 rules out.
\<close>

datatype analysis_error = InvalidConfiguration | NonFiniteStatistic

text \<open>
  Modelled from the spec: the valid ranges of the six configuration fields (section 3,
  the table), bounds included. The range check of the detector is missing from the
  sources.
\<close>

definition validConfig :: "config \<Rightarrow> bool" where
  "validConfig c \<longleftrightarrow>
     1 / 10 \<le> peakThresholdStd c \<and> peakThresholdStd c \<le> 5 \<and>
     1 / 100 \<le> minShotSpacing c \<and> minShotSpacing c \<le> 1 \<and>
     5 / 100 \<le> burstGapThreshold c \<and> burstGapThreshold c \<le> 2 \<and>
     1 / 1000 \<le> windowSize c \<and> windowSize c \<le> 1 / 100 \<and>
     1 / 100 \<le> minPeakProminence c \<and> minPeakProminence c \<le> 1 \<and>
     1 \<le> minBurstCount c \<and> minBurstCount c \<le> 50"

text \<open>
  Modelled from the spec: the arithmetic mean with the guard of section 7 (a zero-length
  list gives the sentinel 0). The statistics code of the detector is missing from the
  sources.
\<close>

definition meanOf :: "real list \<Rightarrow> real option" where
  "meanOf xs = (if xs = [] then Some 0 else js_divide (sum_list xs) (real (length xs)))"

text \<open>
  Modelled from the spec: the inter-shot intervals of a burst, the consecutive timestamp
  differences (section 4.4). \<open>calculateRates\<close> is missing from the sources.
\<close>

fun intervals :: "real list \<Rightarrow> real list" where
  "intervals (t # u # ts) = (u - t) # intervals (u # ts)"
| "intervals ts = []"

text \<open>
  Modelled from the spec: the statistics of one burst (section 4.4). With two shots or
  more: mean interval, population standard deviation, mean absolute deviation and
  \<open>rateRpm = 60 / meanInterval\<close>; with fewer, every derived statistic and the duration
  are 0. \<open>calculateRates\<close> is missing from the sources.
\<close>

definition burstStats :: "nat \<Rightarrow> real list \<Rightarrow> burst option" where
  "burstStats k ts =
     (if 2 \<le> length ts then
        do {
          m \<leftarrow> meanOf (intervals ts);
          variance \<leftarrow> meanOf (map (\<lambda>x. (x - m)\<^sup>2) (intervals ts));
          dev \<leftarrow> meanOf (map (\<lambda>x. \<bar>x - m\<bar>) (intervals ts));
          sd \<leftarrow> js_sqrt variance;
          rpm \<leftarrow> js_divide 60 m;
          Some \<lparr>burstNumber = k, numShots = length ts,
                startTime = hd ts, endTime = last ts, duration = last ts - hd ts,
                meanInterval = m, stdInterval = sd, meanDeviation = dev,
                rateRpm = rpm\<rparr>
        }
      else
        Some \<lparr>burstNumber = k, numShots = length ts,
              startTime = (case ts of [] \<Rightarrow> 0 | t # _ \<Rightarrow> t),
              endTime = (case ts of [] \<Rightarrow> 0 | t # _ \<Rightarrow> t), duration = 0,
              meanInterval = 0, stdInterval = 0, meanDeviation = 0, rateRpm = 0\<rparr>)"

text \<open>
  Modelled from the spec: the Burst Segmenter (section 4.3). A new group starts where
  the gap to the previous shot exceeds \<open>burstGapThreshold\<close>; groups with fewer than
  \<open>minBurstCount\<close> shots are dropped. \<open>groupIntoBursts\<close> is missing from the sources.
\<close>

fun groupByGap :: "real \<Rightarrow> real list \<Rightarrow> real list list" where
  "groupByGap g [] = []"
| "groupByGap g [t] = [[t]]"
| "groupByGap g (t # u # ts) =
     (if g < u - t then [t] # groupByGap g (u # ts)
      else (case groupByGap g (u # ts) of
              [] \<Rightarrow> [[t]]
            | b # bs \<Rightarrow> (t # b) # bs))"

definition segment :: "real list \<Rightarrow> config \<Rightarrow> real list list" where
  "segment stamps c =
     filter (\<lambda>b. minBurstCount c \<le> int (length b)) (groupByGap (burstGapThreshold c) stamps)"

text \<open>
  Modelled from the spec: the Cadence Calculator over the reported groups, numbered
  from 1 in order (sections 4.3 and 4.4). \<open>calculateRates\<close> is missing from the sources.
\<close>

fun calculateFrom :: "nat \<Rightarrow> real list list \<Rightarrow> burst list option" where
  "calculateFrom k [] = Some []"
| "calculateFrom k (g # gs) =
     do { b \<leftarrow> burstStats k g; bs \<leftarrow> calculateFrom (Suc k) gs; Some (b # bs) }"

definition calculate :: "real list list \<Rightarrow> burst list option" where
  "calculate groups = calculateFrom 1 groups"

text \<open>
  Modelled from the spec: the Summary (section 4.4). The counts run over the reported
  bursts; the rate and deviation aggregates run over the bursts with two shots or more,
  and are 0 when there is none. \<open>generateSummary\<close> is missing from the sources.
\<close>

definition zeroSummary :: summary where
  "zeroSummary =
     \<lparr>totalShots = 0, totalBursts = 0, meanBurstRateRpm = 0, minBurstRateRpm = 0,
      maxBurstRateRpm = 0, avgStdInterval = 0, avgMeanDeviation = 0\<rparr>"

definition extremum :: "(real \<Rightarrow> real \<Rightarrow> real) \<Rightarrow> real list \<Rightarrow> real" where
  "extremum f xs = (case xs of [] \<Rightarrow> 0 | x # ys \<Rightarrow> fold f ys x)"

definition summaryOf :: "burst list \<Rightarrow> summary option" where
  "summaryOf bs =
     (let q = filter (\<lambda>b. 2 \<le> numShots b) bs in
      do {
        rate \<leftarrow> meanOf (map rateRpm q);
        sd \<leftarrow> meanOf (map stdInterval q);
        dev \<leftarrow> meanOf (map meanDeviation q);
        Some \<lparr>totalShots = sum_list (map numShots bs), totalBursts = length bs,
              meanBurstRateRpm = rate,
              minBurstRateRpm = extremum min (map rateRpm q),
              maxBurstRateRpm = extremum max (map rateRpm q),
              avgStdInterval = sd, avgMeanDeviation = dev\<rparr>
      })"

text \<open>
  Modelled from the spec: the analysis as a whole (sections 2, 6 and 7). An invalid
  configuration is rejected before anything is computed. The envelope estimator and the
  peak detector, which the specification leaves open (section 9), are the parameter
  \<open>detect\<close>; it returns the shot set as sample indices, whose timestamps are
  \<open>index / sampleRate\<close>. \<open>RateOfFireDetector.analyze\<close> is missing from the sources.
\<close>

record analysis =
  shotSet :: "int list"
  burstList :: "burst list"
  summaryValue :: summary

definition analyze ::
  "(real list \<Rightarrow> real \<Rightarrow> config \<Rightarrow> int list) \<Rightarrow> real list \<Rightarrow> real \<Rightarrow> config
     \<Rightarrow> analysis_error + analysis" where
  "analyze detect samples r c =
     (if \<not> validConfig c then Inl InvalidConfiguration
      else
        (let shots = detect samples r c in
         case those (map (\<lambda>i. js_divide (real_of_int i) r) shots) of
           None \<Rightarrow> Inl NonFiniteStatistic
         | Some stamps \<Rightarrow>
             (case calculate (segment stamps c) of
                None \<Rightarrow> Inl NonFiniteStatistic
              | Some bs \<Rightarrow>
                  (case summaryOf bs of
                     None \<Rightarrow> Inl NonFiniteStatistic
                   | Some s \<Rightarrow> Inr \<lparr>shotSet = shots, burstList = bs, summaryValue = s\<rparr>))))"

text \<open>
  Modelled from the spec: the state of the detector between edits, as far as the
  segmenter needs it (sections 3 and 4.3): next to the shot times and the sample rate,
  the configuration it was built with and the groups of the last segmentation
  (\<open>detector.bursts\<close>). The class \<open>RateOfFireDetector\<close> is missing from the sources.
\<close>

record rof_detector = detector +
  params :: config
  detectorBursts :: "real list list"

text \<open>
  Modelled from the spec: the statistics of the reported groups one by one, numbered
  from \<open>k\<close> (section 4.4); an entry is \<open>None\<close> where a statistic of that burst is not a
  finite number. \<open>calculateRates\<close> is missing from the sources.
\<close>

fun statsFrom :: "nat \<Rightarrow> real list list \<Rightarrow> burst option list" where
  "statsFrom k [] = []"
| "statsFrom k (g # gs) = burstStats k g # statsFrom (Suc k) gs"

text \<open>
  Modelled from the spec: the three methods that \<open>onPeakToggle\<close> calls, as the pure
  stages of sections 4.3 and 4.4. \<open>groupIntoBursts\<close> segments the shot times of the
  detector and stores the groups, \<open>calculateRates\<close> computes the statistics of the stored
  groups, \<open>generateSummary\<close> aggregates the burst results it is given. The methods are
  missing from the sources.
\<close>

definition specMethods ::
  "(unit rof_detector_ext, burst option, summary option) detector_methods" where
  "specMethods =
     \<lparr>groupIntoBursts = (\<lambda>d. d\<lparr>detectorBursts := segment (shotTimes d) (params d)\<rparr>),
      calculateRates = (\<lambda>d. (statsFrom 1 (detectorBursts d), d)),
      generateSummary = (\<lambda>bs d. (Option.bind (those bs) summaryOf, d))\<rparr>"

text \<open>The values of the input fields in \<open>src/templates/view.php\<close>.\<close>

definition defaultConfig :: config where
  "defaultConfig =
     \<lparr>peakThresholdStd = 12 / 10, minShotSpacing = 5 / 100, burstGapThreshold = 2 / 10,
      windowSize = 2 / 1000, minPeakProminence = 1 / 10, minBurstCount = 5\<rparr>"

section \<open>Lemmas about the toggle\<close>

lemma findIndex_None_iff: "findIndex P xs = None \<longleftrightarrow> (\<forall>x\<in>set xs. \<not> P x)"
  by (induction xs) auto

lemma findIndex_SomeD:
  "findIndex P xs = Some i \<Longrightarrow> i < length xs \<and> P (xs ! i) \<and> (\<forall>j<i. \<not> P (xs ! j))"
proof (induction xs arbitrary: i)
  case Nil
  then show ?case by simp
next
  case (Cons x xs)
  show ?case
  proof (cases "P x")
    case True
    with Cons.prems show ?thesis by simp
  next
    case False
    with Cons.prems obtain k where k: "findIndex P xs = Some k" "i = Suc k"
      by auto
    from Cons.IH [OF k(1)] False k(2) show ?thesis
      by (auto simp: nth_Cons split: nat.splits)
  qed
qed

lemma set_splice1: "set (splice1 i xs) \<subseteq> set xs"
  unfolding splice1_def by (auto dest: in_set_takeD in_set_dropD)

lemma mset_splice1:
  assumes "i < length xs"
  shows "mset (splice1 i xs) = mset xs - {#xs ! i#}"
proof -
  have "mset xs = mset (take i xs @ xs ! i # drop (Suc i) xs)"
    using assms by (simp only: id_take_nth_drop [symmetric])
  then show ?thesis by (simp add: splice1_def)
qed

lemma sorted_splice1:
  assumes "sorted xs"
  shows "sorted (splice1 i xs)"
proof -
  have "sorted (take i xs @ drop i xs)" using assms by simp
  then have c: "\<forall>x\<in>set (take i xs). \<forall>y\<in>set (drop i xs). x \<le> y"
    by (simp only: sorted_append) blast
  have "set (drop (Suc i) xs) \<subseteq> set (drop i xs)"
    by (rule set_drop_subset_set_drop) simp
  with c have "\<forall>x\<in>set (take i xs). \<forall>y\<in>set (drop (Suc i) xs). x \<le> y"
    by blast
  moreover have "sorted (take i xs)" "sorted (drop (Suc i) xs)"
    using assms by (simp_all add: sorted_wrt_take sorted_wrt_drop)
  ultimately show ?thesis
    by (simp add: splice1_def sorted_append)
qed

lemma distinct_splice1: "distinct xs \<Longrightarrow> distinct (splice1 i xs)"
  unfolding splice1_def
  using set_take_disj_set_drop_if_distinct [of xs i "Suc i"] by auto

lemma map_splice1: "map f (splice1 i xs) = splice1 i (map f xs)"
  by (simp add: splice1_def take_map drop_map)

lemma sorted_toggleTimes: "sorted (toggleTimes ts c)"
  by (simp add: toggleTimes_def)

lemma toggleTimes_insert:
  "findIndex (withinTolerance c) ts = None \<Longrightarrow> toggleTimes ts c = sort (ts @ [c])"
  by (simp add: toggleTimes_def)

lemma toggleTimes_remove:
  "findIndex (withinTolerance c) ts = Some i \<Longrightarrow> toggleTimes ts c = sort (splice1 i ts)"
  by (simp add: toggleTimes_def)

lemma set_toggleTimes: "set (toggleTimes ts c) \<subseteq> insert c (set ts)"
  using set_splice1 [of _ ts]
  by (auto simp: toggleTimes_def split: option.splits)

lemma Math_round_mono: "x \<le> y \<Longrightarrow> Math_round x \<le> Math_round y"
  by (simp add: Math_round_def floor_mono)

lemma Math_round_apart:
  assumes "1 \<le> \<bar>x - y\<bar>"
  shows "Math_round x \<noteq> Math_round y"
proof
  assume "Math_round x = Math_round y"
  then have "\<lfloor>x + 1 / 2\<rfloor> = \<lfloor>y + 1 / 2\<rfloor>"
    by (simp add: Math_round_def)
  then have "\<bar>(x + 1 / 2) - (y + 1 / 2)\<bar> < 1"
    by linarith
  with assms show False by simp
qed

lemma index_apart:
  assumes "100 \<le> r" and "\<not> withinTolerance c t"
  shows "Math_round (t * r) \<noteq> Math_round (c * r)"
proof (rule Math_round_apart)
  from assms(2) have d: "1 / 100 \<le> \<bar>t - c\<bar>"
    by (simp add: withinTolerance_def tolerance_def)
  have "1 \<le> (1 / 100) * r" using assms(1) by simp
  also have "\<dots> \<le> \<bar>t - c\<bar> * r"
    using d assms(1) by (intro mult_right_mono) auto
  also have "\<dots> = \<bar>t * r - c * r\<bar>"
    using assms(1) by (simp add: abs_mult left_diff_distrib [symmetric])
  finally show "1 \<le> \<bar>t * r - c * r\<bar>" .
qed

lemma sorted_newPeaks: "0 \<le> r \<Longrightarrow> sorted ts \<Longrightarrow> sorted (newPeaks r ts)"
  unfolding newPeaks_def
  by (induction ts) (auto intro!: Math_round_mono mult_right_mono)

lemma distinct_newPeaks_sort: "distinct (newPeaks r (sort ts)) \<longleftrightarrow> distinct (newPeaks r ts)"
  by (simp add: newPeaks_def distinct_map)

lemma distinct_newPeaks_toggle:
  assumes r: "100 \<le> r" and d: "distinct (newPeaks r ts)"
  shows "distinct (newPeaks r (toggleTimes ts c))"
proof (cases "findIndex (withinTolerance c) ts")
  case None
  then have far: "\<forall>s\<in>set ts. \<not> withinTolerance c s"
    by (simp add: findIndex_None_iff)
  have "Math_round (c * r) \<notin> set (newPeaks r ts)"
    using far index_apart [OF r] by (fastforce simp: newPeaks_def)
  then have "distinct (newPeaks r (ts @ [c]))"
    using d by (simp add: newPeaks_def)
  then show ?thesis
    by (simp add: toggleTimes_insert [OF None] distinct_newPeaks_sort)
next
  case (Some i)
  have "distinct (newPeaks r (splice1 i ts))"
    using distinct_splice1 [OF d [unfolded newPeaks_def]]
    by (simp add: newPeaks_def map_splice1)
  then show ?thesis
    by (simp add: toggleTimes_remove [OF Some] distinct_newPeaks_sort)
qed

lemma round_trip_times:
  assumes s: "sorted ts" and n: "findIndex (withinTolerance c) ts = None"
  shows "toggleTimes (toggleTimes ts c) c = ts"
proof -
  let ?us = "sort (ts @ [c])"
  have us: "toggleTimes ts c = ?us" by (rule toggleTimes_insert [OF n])
  have far: "\<forall>s\<in>set ts. \<not> withinTolerance c s"
    using n by (simp add: findIndex_None_iff)
  have self: "withinTolerance c c"
    by (simp add: withinTolerance_def tolerance_def)
  have "findIndex (withinTolerance c) ?us \<noteq> None"
    using self by (auto simp: findIndex_None_iff)
  then obtain i where i: "findIndex (withinTolerance c) ?us = Some i" by auto
  from findIndex_SomeD [OF i] have il: "i < length ?us" and ip: "withinTolerance c (?us ! i)"
    by auto
  have "?us ! i \<in> set ?us" using il by (rule nth_mem)
  with far ip have at: "?us ! i = c" by auto
  have m: "mset (splice1 i ?us) = mset ts"
    using mset_splice1 [OF il] at by simp
  have "sorted (splice1 i ?us)" by (rule sorted_splice1) simp
  then have "sort (splice1 i ?us) = splice1 i ?us"
    by (simp add: sort_key_id_if_sorted)
  moreover have "sort ts = splice1 i ?us"
    by (rule properties_for_sort [OF m \<open>sorted (splice1 i ?us)\<close>])
  moreover have "sort ts = ts" using s by (simp add: sort_key_id_if_sorted)
  ultimately show ?thesis
    by (simp add: us toggleTimes_remove [OF i])
qed

lemma Math_round_on_axis:
  assumes "0 \<le> r" and "onTimeAxis n r t"
  shows "0 \<le> Math_round (t * r) \<and> Math_round (t * r) < int n"
proof -
  from assms have lo: "0 \<le> t * r" and hi: "t * r \<le> real n - 1"
    by (simp_all add: onTimeAxis_def)
  from lo have "0 \<le> \<lfloor>t * r + 1 / 2\<rfloor>" by simp
  moreover from hi have "t * r + 1 / 2 < real_of_int (int n)" by simp
  then have "\<lfloor>t * r + 1 / 2\<rfloor> < int n" by (simp only: floor_less_iff)
  ultimately show ?thesis by (simp add: Math_round_def)
qed

lemma list_all_toggleTimes:
  assumes "list_all P ts" and "P c"
  shows "list_all P (toggleTimes ts c)"
  using assms set_toggleTimes [of ts c] by (auto simp: list_all_iff)

lemma shotSetOk_toggleTimes:
  assumes "100 \<le> r" and "shotSetOk n r ts" and "onTimeAxis n r c"
  shows "shotSetOk n r (toggleTimes ts c)"
  using assms
  by (simp add: shotSetOk_def sorted_toggleTimes distinct_newPeaks_toggle list_all_toggleTimes)

lemma shotSetOk_toggleAll:
  assumes "100 \<le> r"
  shows "shotSetOk n r ts \<Longrightarrow> list_all (onTimeAxis n r) clicks
           \<Longrightarrow> shotSetOk n r (toggleAll ts clicks)"
proof (induction clicks arbitrary: ts)
  case Nil
  then show ?case by (simp add: toggleAll_def)
next
  case (Cons c clicks)
  from Cons.prems have "shotSetOk n r (toggleTimes ts c)"
    by (simp add: shotSetOk_toggleTimes [OF assms])
  with Cons.prems Cons.IH [of "toggleTimes ts c"] show ?case
    by (simp add: toggleAll_def)
qed

lemma shotSetOk_indices:
  assumes "0 \<le> r" and "shotSetOk n r ts"
  shows "sorted_wrt (<) (newPeaks r ts) \<and> list_all (\<lambda>p. 0 \<le> p \<and> p < int n) (newPeaks r ts)"
proof -
  from assms have "sorted (newPeaks r ts)" "distinct (newPeaks r ts)"
    by (simp_all add: shotSetOk_def sorted_newPeaks)
  then have "sorted_wrt (<) (newPeaks r ts)"
    by (simp add: strict_sorted_iff)
  moreover from assms have "list_all (\<lambda>p. 0 \<le> p \<and> p < int n) (newPeaks r ts)"
    using Math_round_on_axis [OF assms(1), of n]
    by (simp add: shotSetOk_def newPeaks_def list_all_iff)
  ultimately show ?thesis by simp
qed

lemma Math_round_close:
  assumes "0 < r"
  shows "\<bar>real_of_int (Math_round (t * r)) / r - t\<bar> \<le> 1 / (2 * r)"
proof -
  let ?k = "real_of_int (Math_round (t * r))"
  have "?k \<le> t * r + 1 / 2" "t * r + 1 / 2 < ?k + 1"
    unfolding Math_round_def by linarith+
  then have "\<bar>?k - t * r\<bar> \<le> 1 / 2" by linarith
  with assms have "\<bar>?k - t * r\<bar> / r \<le> (1 / 2) / r"
    by (intro divide_right_mono) auto
  moreover have "?k / r - t = (?k - t * r) / r"
    using assms by (simp add: field_simps)
  then have "\<bar>?k - t * r\<bar> / r = \<bar>?k / r - t\<bar>"
    using assms by (simp only: abs_divide abs_of_pos)
  ultimately show ?thesis by simp
qed

section \<open>Lemmas about \<open>downsample\<close>\<close>

lemma stride_bound:
  fixes j len step :: nat
  assumes "0 < step"
  shows "j < (len + step - 1) div step \<longleftrightarrow> j * step < len"
proof -
  have "j < (len + step - 1) div step \<longleftrightarrow> Suc j \<le> (len + step - 1) div step"
    by auto
  also have "\<dots> \<longleftrightarrow> Suc j * step \<le> len + step - 1"
    using assms by (simp only: less_eq_div_iff_mult_less_eq)
  also have "\<dots> \<longleftrightarrow> j * step < len"
    using assms by auto
  finally show ?thesis .
qed

lemma downsample_loop_from:
  assumes "0 < step" and "n = (length data + step - 1) div step"
  shows "j \<le> n \<Longrightarrow>
         downsample_loop data timeArray step (j * step) acc =
           Some (fst acc @ map (\<lambda>k. data ! (k * step)) [j..<n],
                 snd acc @ map (\<lambda>k. nth_opt timeArray (k * step)) [j..<n])"
proof (induction "n - j" arbitrary: j acc)
  case 0
  then have "j = n" by simp
  then have "\<not> j * step < length data"
    using stride_bound [OF assms(1), of j "length data"] assms(2) by simp
  then show ?case
    using \<open>j = n\<close> by (subst downsample_loop.simps) simp
next
  case (Suc d)
  then have jn: "j < n" by simp
  then have lt: "j * step < length data"
    using stride_bound [OF assms(1), of j "length data"] assms(2) by simp
  have IH: "downsample_loop data timeArray step (Suc j * step) acc' =
           Some (fst acc' @ map (\<lambda>k. data ! (k * step)) [Suc j..<n],
                 snd acc' @ map (\<lambda>k. nth_opt timeArray (k * step)) [Suc j..<n])" for acc'
    using Suc.hyps(1) [of "Suc j" acc'] Suc.hyps(2) jn by simp
  have step: "j * step + step = Suc j * step" by simp
  show ?case
    by (subst downsample_loop.simps) (simp only: lt if_True step IH, simp add: upt_conv_Cons [OF jn])
qed

lemma downsample_loop_closed:
  assumes "0 < step"
  shows "downsample_loop data timeArray step 0 ([], []) =
           Some (map (\<lambda>i. data ! i) (strideIndices (length data) step),
                 map (nth_opt timeArray) (strideIndices (length data) step))"
  using downsample_loop_from [OF assms refl, of 0 data timeArray "([], [])"]
  by (simp add: strideIndices_def comp_def)

lemma set_strideIndices:
  assumes "0 < step"
  shows "set (strideIndices len step) = {i. i < len \<and> step dvd i}"
proof -
  have "set (strideIndices len step) = (\<lambda>j. j * step) ` {j. j * step < len}"
    using stride_bound [OF assms, of _ len] by (auto simp: strideIndices_def)
  also have "\<dots> = {i. i < len \<and> step dvd i}"
    by (auto simp: dvd_def image_iff mult.commute)
  finally show ?thesis .
qed

lemma strict_sorted_strideIndices:
  assumes "0 < step"
  shows "sorted_wrt (<) (strideIndices len step)"
  unfolding strideIndices_def sorted_wrt_map
  using assms by (intro sorted_wrt_mono_rel [OF _ sorted_wrt_upt]) simp

lemma strideIndices_eq_filter:
  assumes "0 < step"
  shows "strideIndices len step = filter (\<lambda>i. step dvd i) [0..<len]"
proof (rule sorted_distinct_set_unique)
  have s: "sorted_wrt (<) (strideIndices len step)"
    by (rule strict_sorted_strideIndices [OF assms])
  then show "sorted (strideIndices len step)" "distinct (strideIndices len step)"
    by (simp_all add: strict_sorted_iff)
  show "sorted (filter (\<lambda>i. step dvd i) [0..<len])" by (simp add: sorted_wrt_filter)
  show "distinct (filter (\<lambda>i. step dvd i) [0..<len])" by simp
  show "set (strideIndices len step) = set (filter (\<lambda>i. step dvd i) [0..<len])"
    by (auto simp: set_strideIndices [OF assms])
qed

lemma nths_conv_map_nth: "nths xs I = map (\<lambda>i. xs ! i) (filter (\<lambda>i. i \<in> I) [0..<length xs])"
proof -
  have z: "zip xs [0..<length xs] = map (\<lambda>i. (xs ! i, i)) [0..<length xs]"
    by (intro nth_equalityI) auto
  show ?thesis
    by (simp add: nths_def z filter_map comp_def)
qed

lemma map_nth_strideIndices:
  assumes "0 < step"
  shows "map (\<lambda>i. xs ! i) (strideIndices (length xs) step) = nths xs {i. step dvd i}"
  by (simp add: nths_conv_map_nth strideIndices_eq_filter [OF assms])

section \<open>Lemmas about rounding to single precision\<close>

lemma pow2_powr: "pow2 e = 2 powr real_of_int e"
  by (simp add: pow2_def powr_real_of_int inverse_eq_divide)

lemma pow2_pos [simp]: "0 < pow2 e"
  by (simp add: pow2_powr)

lemma pow2_nonzero [simp]: "pow2 e \<noteq> 0"
  using pow2_pos [of e] by linarith

lemma pow2_nonneg [simp]: "0 \<le> pow2 e"
  using pow2_pos [of e] by linarith

lemma pow2_add: "pow2 (a + b) = pow2 a * pow2 b"
  by (simp add: pow2_powr powr_add)

lemma pow2_mono: "a \<le> b \<Longrightarrow> pow2 a \<le> pow2 b"
  by (simp add: pow2_powr)

lemma pow2_nat: "pow2 (int n) = 2 ^ n"
  by (simp add: pow2_def)

lemma floor_log2_bounds:
  assumes "x \<noteq> 0"
  shows "pow2 \<lfloor>log 2 \<bar>x\<bar>\<rfloor> \<le> \<bar>x\<bar> \<and> \<bar>x\<bar> < pow2 (\<lfloor>log 2 \<bar>x\<bar>\<rfloor> + 1)"
  using assms floor_log_eq_powr_iff [of "\<bar>x\<bar>" 2 "\<lfloor>log 2 \<bar>x\<bar>\<rfloor>"]
  by (simp add: pow2_powr)

lemma floor_log2_eqI:
  assumes "pow2 k \<le> \<bar>x\<bar>" and "\<bar>x\<bar> < pow2 (k + 1)"
  shows "\<lfloor>log 2 \<bar>x\<bar>\<rfloor> = k"
proof -
  have "0 < \<bar>x\<bar>" using assms(1) pow2_pos [of k] by linarith
  then show ?thesis
    using assms floor_log_eq_powr_iff [of "\<bar>x\<bar>" 2 k] by (simp add: pow2_powr)
qed

lemma roundHalfEven_near: "\<bar>real_of_int (roundHalfEven q) - q\<bar> \<le> 1 / 2"
  unfolding roundHalfEven_def Let_def by (auto; linarith)

lemma roundHalfEven_between: "\<lfloor>q\<rfloor> \<le> roundHalfEven q \<and> roundHalfEven q \<le> \<lceil>q\<rceil>"
  unfolding roundHalfEven_def Let_def by (auto; linarith)

lemma roundHalfEven_bounded:
  assumes "\<bar>q\<bar> \<le> real_of_int N"
  shows "\<bar>roundHalfEven q\<bar> \<le> N"
proof -
  from assms have "q \<le> real_of_int N" "real_of_int (- N) \<le> q" by auto
  then have "\<lceil>q\<rceil> \<le> N" "- N \<le> \<lfloor>q\<rfloor>"
    by (simp_all add: ceiling_le_iff le_floor_iff)
  with roundHalfEven_between [of q] show ?thesis by linarith
qed

lemma binaryRound_error:
  assumes "x \<noteq> 0"
  shows "\<bar>binaryRound p emin x - x\<bar>
           \<le> pow2 (max (\<lfloor>log 2 \<bar>x\<bar>\<rfloor> - (int p - 1)) emin) / 2"
proof -
  define e where "e = max (\<lfloor>log 2 \<bar>x\<bar>\<rfloor> - (int p - 1)) emin"
  define m where "m = roundHalfEven (x / pow2 e)"
  have "binaryRound p emin x = real_of_int m * pow2 e"
    using assms by (simp add: binaryRound_def e_def m_def Let_def)
  then have "binaryRound p emin x - x = (real_of_int m - x / pow2 e) * pow2 e"
    by (simp add: left_diff_distrib)
  then have "\<bar>binaryRound p emin x - x\<bar> = \<bar>real_of_int m - x / pow2 e\<bar> * pow2 e"
    by (simp add: abs_mult abs_of_pos)
  also have "\<dots> \<le> (1 / 2) * pow2 e"
    unfolding m_def by (intro mult_right_mono roundHalfEven_near) simp
  finally show ?thesis by (simp add: e_def)
qed

lemma binaryRound_relative:
  assumes "pow2 (emin + int p - 1) \<le> \<bar>x\<bar>"
  shows "\<bar>binaryRound p emin x - x\<bar> \<le> \<bar>x\<bar> / 2 ^ p"
proof -
  have nz: "x \<noteq> 0"
  proof
    assume "x = 0"
    with assms have "pow2 (emin + int p - 1) \<le> 0" by simp
    with pow2_pos [of "emin + int p - 1"] show False by linarith
  qed
  define E where "E = \<lfloor>log 2 \<bar>x\<bar>\<rfloor>"
  from floor_log2_bounds [OF nz] have lo: "pow2 E \<le> \<bar>x\<bar>" and hi: "\<bar>x\<bar> < pow2 (E + 1)"
    by (simp_all add: E_def)
  have "emin + int p - 1 < E + 1"
  proof (rule ccontr)
    assume "\<not> emin + int p - 1 < E + 1"
    then have "pow2 (E + 1) \<le> pow2 (emin + int p - 1)" by (intro pow2_mono) simp
    with assms hi show False by linarith
  qed
  then have e: "max (E - (int p - 1)) emin = E - int p + 1" by simp
  have "\<bar>binaryRound p emin x - x\<bar> \<le> pow2 (E - int p + 1) / 2"
    using binaryRound_error [OF nz, of p emin] e by (simp add: E_def)
  also have "pow2 (E - int p + 1) / 2 = pow2 E / 2 ^ p"
  proof -
    have "pow2 E = pow2 (E - int p + 1) * pow2 (int p - 1)"
      by (simp add: pow2_add [symmetric])
    moreover have "pow2 (int p - 1) * 2 = 2 ^ p"
      by (cases p) (simp_all add: pow2_def)
    ultimately show ?thesis
      by (simp add: field_simps)
  qed
  also have "\<dots> \<le> \<bar>x\<bar> / 2 ^ p"
    using lo by (simp add: divide_right_mono)
  finally show ?thesis .
qed

lemma Math_fround_zero: "Math_fround 0 = Some 0"
  by (simp add: Math_fround_def binaryRound_def maxFloat32_def)

lemma binaryRound_in_range:
  assumes "\<bar>x\<bar> \<le> maxFloat32"
  shows "\<bar>binaryRound 24 (- 149) x\<bar> \<le> maxFloat32"
proof (cases "x = 0")
  case True
  then show ?thesis by (simp add: binaryRound_def maxFloat32_def)
next
  case False
  define E where "E = \<lfloor>log 2 \<bar>x\<bar>\<rfloor>"
  define e where "e = max (E - 23) (- 149)"
  define m where "m = roundHalfEven (x / pow2 e)"
  from floor_log2_bounds [OF False] have lo: "pow2 E \<le> \<bar>x\<bar>" and hi: "\<bar>x\<bar> < pow2 (E + 1)"
    by (simp_all add: E_def)
  have y: "binaryRound 24 (- 149) x = real_of_int m * pow2 e"
    using False by (simp add: binaryRound_def Let_def m_def e_def E_def)
  have M: "maxFloat32 < pow2 128"
    by (simp add: maxFloat32_def pow2_def)
  have "E < 128"
  proof (rule ccontr)
    assume "\<not> E < 128"
    then have "pow2 128 \<le> pow2 E" by (intro pow2_mono) simp
    with lo assms M show False by linarith
  qed
  then have e104: "e \<le> 104" by (simp add: e_def)
  have q24: "\<bar>x / pow2 e\<bar> < 2 ^ 24"
  proof -
    have "E + 1 \<le> e + 24" by (simp add: e_def)
    then have "pow2 (E + 1) \<le> pow2 (e + 24)" by (rule pow2_mono)
    moreover have "pow2 (e + 24) = pow2 e * 2 ^ 24"
      by (simp add: pow2_add) (simp add: pow2_def)
    ultimately have "\<bar>x\<bar> < pow2 e * 2 ^ 24"
      using hi by linarith
    then show ?thesis
      by (simp add: abs_divide abs_of_pos pos_divide_less_eq mult.commute)
  qed
  show ?thesis
  proof (cases "e = 104")
    case True
    have "\<bar>x / pow2 e\<bar> \<le> real_of_int (2 ^ 24 - 1)"
      using assms True
      by (simp add: abs_divide abs_of_pos pos_divide_le_eq maxFloat32_def pow2_def)
    then have "\<bar>m\<bar> \<le> 2 ^ 24 - 1"
      unfolding m_def by (rule roundHalfEven_bounded)
    then have "real_of_int \<bar>m\<bar> \<le> real_of_int (2 ^ 24 - 1)"
      by (simp only: of_int_le_iff)
    then have "\<bar>real_of_int m\<bar> \<le> 2 ^ 24 - 1" by simp
    then have "\<bar>real_of_int m\<bar> * pow2 e \<le> (2 ^ 24 - 1) * pow2 e"
      by (intro mult_right_mono) simp_all
    then show ?thesis
      using True by (simp add: y abs_mult abs_of_pos maxFloat32_def pow2_def)
  next
    case False
    with e104 have e103: "e \<le> 103" by simp
    have "\<bar>x / pow2 e\<bar> \<le> real_of_int (2 ^ 24)" using q24 by simp
    then have "\<bar>m\<bar> \<le> 2 ^ 24"
      unfolding m_def by (rule roundHalfEven_bounded)
    then have "real_of_int \<bar>m\<bar> \<le> real_of_int (2 ^ 24)"
      by (simp only: of_int_le_iff)
    then have "\<bar>real_of_int m\<bar> \<le> 2 ^ 24" by simp
    moreover have "pow2 e \<le> pow2 103" using e103 by (rule pow2_mono)
    ultimately have "\<bar>real_of_int m\<bar> * pow2 e \<le> 2 ^ 24 * pow2 103"
      by (intro mult_mono) simp_all
    also have "\<dots> \<le> maxFloat32" by (simp add: maxFloat32_def pow2_def)
    finally show ?thesis by (simp add: y abs_mult abs_of_pos)
  qed
qed

lemma Math_fround_finite:
  assumes "\<bar>x\<bar> \<le> maxFloat32"
  shows "Math_fround x = Some (binaryRound 24 (- 149) x)"
  using binaryRound_in_range [OF assms] by (simp add: Math_fround_def)

lemma Math_fround_overflow:
  assumes "2 ^ 128 \<le> \<bar>x\<bar>"
  shows "Math_fround x = None"
proof -
  have nz: "x \<noteq> 0" using assms by auto
  define E where "E = \<lfloor>log 2 \<bar>x\<bar>\<rfloor>"
  define e where "e = max (E - 23) (- 149)"
  define m where "m = roundHalfEven (x / pow2 e)"
  from floor_log2_bounds [OF nz] have lo: "pow2 E \<le> \<bar>x\<bar>" and hi: "\<bar>x\<bar> < pow2 (E + 1)"
    by (simp_all add: E_def)
  have y: "binaryRound 24 (- 149) x = real_of_int m * pow2 e"
    using nz by (simp add: binaryRound_def Let_def m_def e_def E_def)
  have "127 < E"
  proof (rule ccontr)
    assume "\<not> 127 < E"
    then have "pow2 (E + 1) \<le> pow2 128" by (intro pow2_mono) simp
    with hi assms show False by (simp add: pow2_def)
  qed
  then have e: "e = E - 23" and e105: "105 \<le> e" by (simp_all add: e_def)
  have "pow2 (e + 23) = pow2 e * 2 ^ 23"
    by (simp add: pow2_add) (simp add: pow2_def)
  then have "pow2 e * 2 ^ 23 = pow2 E"
    by (simp add: e)
  with lo have "2 ^ 23 \<le> \<bar>x\<bar> / pow2 e"
    by (simp add: pos_le_divide_eq mult.commute)
  then have q: "real_of_int (2 ^ 23) \<le> \<bar>x / pow2 e\<bar>"
    by (simp add: abs_divide abs_of_pos)
  have "2 ^ 23 \<le> \<bar>m\<bar>"
  proof (cases "0 \<le> x")
    case True
    with q have "real_of_int (2 ^ 23) \<le> x / pow2 e" by (simp add: abs_divide abs_of_pos)
    then have "2 ^ 23 \<le> \<lfloor>x / pow2 e\<rfloor>" by (simp only: le_floor_iff)
    also have "\<dots> \<le> m"
      using roundHalfEven_between [of "x / pow2 e"] by (simp add: m_def)
    also have "m \<le> \<bar>m\<bar>" by (rule abs_ge_self)
    finally show ?thesis .
  next
    case False
    with q have "x / pow2 e \<le> real_of_int (- (2 ^ 23))"
      by (simp add: abs_divide abs_of_pos abs_of_neg)
    then have c: "\<lceil>x / pow2 e\<rceil> \<le> - (2 ^ 23)" by (simp only: ceiling_le_iff)
    have "m \<le> \<lceil>x / pow2 e\<rceil>"
      using roundHalfEven_between [of "x / pow2 e"] by (simp add: m_def)
    from this c have "m \<le> - (2 ^ 23)" by (rule order_trans)
    then have "2 ^ 23 \<le> - m" by (simp only: le_minus_iff)
    also have "- m \<le> \<bar>m\<bar>" by (rule abs_ge_minus_self)
    finally show ?thesis .
  qed
  then have "real_of_int (2 ^ 23) \<le> real_of_int \<bar>m\<bar>"
    by (simp only: of_int_le_iff)
  then have "2 ^ 23 \<le> \<bar>real_of_int m\<bar>" by simp
  moreover have "pow2 105 \<le> pow2 e" using e105 by (rule pow2_mono)
  ultimately have "2 ^ 23 * pow2 105 \<le> \<bar>real_of_int m\<bar> * pow2 e"
    by (intro mult_mono) simp_all
  moreover have "maxFloat32 < 2 ^ 23 * pow2 105"
    by (simp add: maxFloat32_def pow2_def)
  ultimately have "maxFloat32 < \<bar>binaryRound 24 (- 149) x\<bar>"
    by (simp add: y abs_mult abs_of_pos)
  then show ?thesis by (simp add: Math_fround_def)
qed

lemma fround_example:
  "Math_fround (1 / 44100) = Some (12466118 / 2 ^ 39)"
proof -
  have "\<lfloor>log 2 \<bar>1 / 44100 :: real\<bar>\<rfloor> = - 16"
    by (rule floor_log2_eqI) (simp_all add: pow2_def)
  then show ?thesis
    by (simp add: Math_fround_def binaryRound_def Let_def pow2_def roundHalfEven_def maxFloat32_def)
qed

lemma double_example:
  "binaryRound 53 (- 1074) (1 / 44100) = 6692696262570359 / 2 ^ 68"
proof -
  have "\<lfloor>log 2 \<bar>1 / 44100 :: real\<bar>\<rfloor> = - 16"
    by (rule floor_log2_eqI) (simp_all add: pow2_def)
  then show ?thesis
    by (simp add: binaryRound_def Let_def pow2_def roundHalfEven_def)
qed

section \<open>Lemmas about the modelled kernel\<close>

lemma meanOf_total: "meanOf xs = Some (if xs = [] then 0 else sum_list xs / real (length xs))"
  by (simp add: meanOf_def js_divide_def)

lemma intervals_pos:
  "sorted_wrt (<) ts \<Longrightarrow> \<forall>x\<in>set (intervals ts). 0 < x"
  by (induction ts rule: intervals.induct) auto

lemma intervals_nonempty: "2 \<le> length ts \<Longrightarrow> intervals ts \<noteq> []"
  by (cases ts rule: intervals.cases) auto

lemma sum_list_pos_real:
  fixes xs :: "real list"
  shows "xs \<noteq> [] \<Longrightarrow> \<forall>x\<in>set xs. 0 < x \<Longrightarrow> 0 < sum_list xs"
proof (induction xs)
  case Nil
  then show ?case by simp
next
  case (Cons x xs)
  show ?case
  proof (cases "xs = []")
    case True
    with Cons.prems show ?thesis by simp
  next
    case False
    with Cons have "0 < sum_list xs" by simp
    with Cons.prems show ?thesis by (simp add: add_pos_pos)
  qed
qed

lemma mean_interval_pos:
  assumes "sorted_wrt (<) ts" and "2 \<le> length ts"
  shows "0 < sum_list (intervals ts) / real (length (intervals ts))"
proof -
  have ne: "intervals ts \<noteq> []" by (rule intervals_nonempty [OF assms(2)])
  then have "0 < sum_list (intervals ts)"
    using intervals_pos [OF assms(1)] by (rule sum_list_pos_real)
  moreover have "0 < real (length (intervals ts))" using ne by simp
  ultimately show ?thesis by simp
qed

lemma mean_squares_nonneg:
  fixes xs :: "real list"
  shows "0 \<le> sum_list (map (\<lambda>x. (x - m)\<^sup>2) xs) / real (length xs)"
  by (intro divide_nonneg_nonneg sum_list_nonneg) auto

lemma burstStats_defined:
  assumes "sorted_wrt (<) ts"
  shows "\<exists>b. burstStats k ts = Some b"
proof (cases "2 \<le> length ts")
  case True
  from mean_interval_pos [OF assms True]
  have "sum_list (intervals ts) / real (length (intervals ts)) \<noteq> 0"
    by (metis less_irrefl)
  moreover have "\<not> sum_list (map (\<lambda>x. (x - m)\<^sup>2) (intervals ts)) / real (length (intervals ts)) < 0"
    for m
    using mean_squares_nonneg [of m "intervals ts"] by simp
  ultimately show ?thesis
    using True intervals_nonempty [OF True]
    by (simp add: burstStats_def meanOf_total js_divide_def js_sqrt_def)
next
  case False
  then show ?thesis by (simp add: burstStats_def)
qed

lemma calculateFrom_defined:
  "\<forall>g\<in>set gs. sorted_wrt (<) g \<Longrightarrow> \<exists>bs. calculateFrom k gs = Some bs"
proof (induction gs arbitrary: k)
  case Nil
  then show ?case by simp
next
  case (Cons g gs)
  from Cons.prems obtain b where b: "burstStats k g = Some b"
    using burstStats_defined [of g k] by auto
  from Cons.prems Cons.IH [of "Suc k"] obtain bs where "calculateFrom (Suc k) gs = Some bs"
    by auto
  with b show ?case by simp
qed

lemma summaryOf_defined: "\<exists>s. summaryOf bs = Some s"
  by (simp add: summaryOf_def Let_def meanOf_total)

lemma groupByGap_members:
  "b \<in> set (groupByGap g ts) \<Longrightarrow> set b \<subseteq> set ts"
proof (induction g ts arbitrary: b rule: groupByGap.induct)
  case (1 g)
  then show ?case by simp
next
  case (2 g t)
  then show ?case by simp
next
  case (3 g t u ts)
  show ?case
  proof (cases "g < u - t")
    case True
    with 3 show ?thesis by fastforce
  next
    case False
    show ?thesis
    proof (cases "groupByGap g (u # ts)")
      case Nil
      with False "3.prems" show ?thesis by simp
    next
      case (Cons c cs)
      with False "3.prems" have "b = t # c \<or> b \<in> set cs" by simp
      moreover have "set c \<subseteq> set (u # ts)" "\<And>x. x \<in> set cs \<Longrightarrow> set x \<subseteq> set (u # ts)"
        using "3.IH"(2) [OF False] Cons by simp_all
      ultimately show ?thesis by auto
    qed
  qed
qed

lemma groupByGap_sorted:
  "sorted_wrt (<) ts \<Longrightarrow> b \<in> set (groupByGap g ts) \<Longrightarrow> sorted_wrt (<) b"
proof (induction g ts arbitrary: b rule: groupByGap.induct)
  case (1 g)
  then show ?case by simp
next
  case (2 g t)
  then show ?case by simp
next
  case (3 g t u ts)
  from "3.prems"(1) have tl: "sorted_wrt (<) (u # ts)" and lt: "\<forall>x\<in>set (u # ts). t < x"
    by auto
  show ?case
  proof (cases "g < u - t")
    case True
    with "3.prems"(2) have "b = [t] \<or> b \<in> set (groupByGap g (u # ts))" by simp
    with "3.IH"(1) [OF True tl] show ?thesis by auto
  next
    case False
    show ?thesis
    proof (cases "groupByGap g (u # ts)")
      case Nil
      with False "3.prems"(2) show ?thesis by simp
    next
      case (Cons c cs)
      with False "3.prems"(2) have b: "b = t # c \<or> b \<in> set cs" by simp
      have c: "sorted_wrt (<) c" and cs: "\<And>x. x \<in> set cs \<Longrightarrow> sorted_wrt (<) x"
        using "3.IH"(2) [OF False tl] Cons by simp_all
      have "set c \<subseteq> set (u # ts)"
        using groupByGap_members [of c g "u # ts"] Cons by simp
      with lt have "\<forall>x\<in>set c. t < x" by blast
      with b c cs show ?thesis by auto
    qed
  qed
qed

lemma segment_sorted:
  "sorted_wrt (<) ts \<Longrightarrow> \<forall>b\<in>set (segment ts c). sorted_wrt (<) b"
  by (auto simp: segment_def dest: groupByGap_sorted)

lemma stamps_sorted:
  assumes "0 < r" and "sorted_wrt (<) (shots :: int list)"
  shows "sorted_wrt (<) (map (\<lambda>i. real_of_int i / r) shots)"
  unfolding sorted_wrt_map
  by (rule sorted_wrt_mono_rel [OF _ assms(2)]) (use assms(1) in \<open>simp add: divide_strict_right_mono\<close>)

lemma those_js_divide:
  "r \<noteq> 0 \<Longrightarrow>
     those (map (\<lambda>i. js_divide (real_of_int i) r) shots) = Some (map (\<lambda>i. real_of_int i / r) shots)"
  by (induction shots) (simp_all add: js_divide_def)

lemma analyze_defined:
  assumes "validConfig c" and "0 < r" and "sorted_wrt (<) (detect samples r c)"
  shows "\<exists>a. analyze detect samples r c = Inr a"
proof -
  let ?stamps = "map (\<lambda>i. real_of_int i / r) (detect samples r c)"
  have "\<forall>b\<in>set (segment ?stamps c). sorted_wrt (<) b"
    by (rule segment_sorted [OF stamps_sorted [OF assms(2,3)]])
  then obtain bs where bs: "calculate (segment ?stamps c) = Some bs"
    unfolding calculate_def using calculateFrom_defined by blast
  obtain s where "summaryOf bs = Some s" using summaryOf_defined by blast
  with bs assms(1,2) show ?thesis by (simp add: analyze_def Let_def those_js_divide)
qed

lemma segment_Nil: "segment [] c = []"
  by (simp add: segment_def)

section \<open>Lemmas about the handler and the time axis\<close>

lemma those_statsFrom: "those (statsFrom k gs) = calculateFrom k gs"
proof (induction gs arbitrary: k)
  case Nil
  then show ?case by simp
next
  case (Cons g gs)
  show ?case
  proof (cases "burstStats k g")
    case None
    then show ?thesis by simp
  next
    case (Some b)
    then show ?thesis
      by (cases "calculateFrom (Suc k) gs") (simp_all add: Cons.IH)
  qed
qed

lemma onPeakToggle_idle:
  "detector st = None \<or> currentResults st = None \<Longrightarrow> onPeakToggle M st t = st"
  by (auto simp: onPeakToggle_def split: option.splits)

lemma onPeakToggle_specMethods:
  assumes "detector st = Some d" and "currentResults st = Some res"
  shows "onPeakToggle specMethods st t =
           st\<lparr>detector :=
                Some (d\<lparr>shotTimes := toggleTimes (shotTimes d) t,
                        detectorBursts := segment (toggleTimes (shotTimes d) t) (params d)\<rparr>),
              currentResults :=
                Some (res\<lparr>summary :=
                            Option.bind
                              (calculate (segment (toggleTimes (shotTimes d) t) (params d)))
                              summaryOf,
                          bursts := statsFrom 1 (segment (toggleTimes (shotTimes d) t) (params d)),
                          peaks := newPeaks (sampleRate d) (toggleTimes (shotTimes d) t)\<rparr>)\<rparr>"
  using assms
  by (simp add: onPeakToggle_def specMethods_def Let_def those_statsFrom calculate_def)

lemma Math_round_within_sample:
  assumes "0 < r"
  shows "\<bar>real_of_int (Math_round (t * r)) / r - t\<bar> < 1 / r"
proof -
  have "\<bar>real_of_int (Math_round (t * r)) / r - t\<bar> \<le> 1 / (2 * r)"
    by (rule Math_round_close [OF assms])
  also have "1 / (2 * r) < 1 / r"
    using assms by (simp add: field_simps)
  finally show ?thesis .
qed

lemma createTimeArray_nth:
  assumes "r \<noteq> 0" and "i < len"
  shows "createTimeArray len r ! i = Math_fround (real i / r)"
  using assms by (simp add: createTimeArray_def js_divide_def)

lemma Math_fround_relative:
  assumes "0 \<le> x" and "x \<le> maxFloat32" and "x = 0 \<or> 1 / 2 ^ 126 \<le> x"
  shows "\<exists>y. Math_fround x = Some y \<and> \<bar>y - x\<bar> \<le> x / 2 ^ 23"
proof (cases "x = 0")
  case True
  then show ?thesis by (simp add: Math_fround_zero)
next
  case False
  with assms(3) have n: "1 / 2 ^ 126 \<le> x" by simp
  have ax: "\<bar>x\<bar> = x" using assms(1) by simp
  have "pow2 (- 149 + int 24 - 1) \<le> \<bar>x\<bar>"
    using n by (simp add: ax pow2_def)
  then have "\<bar>binaryRound 24 (- 149) x - x\<bar> \<le> \<bar>x\<bar> / 2 ^ 24"
    by (rule binaryRound_relative)
  also have "\<dots> \<le> x / 2 ^ 23"
    using assms(1) by (simp add: ax)
  finally have "\<bar>binaryRound 24 (- 149) x - x\<bar> \<le> x / 2 ^ 23" .
  moreover have "Math_fround x = Some (binaryRound 24 (- 149) x)"
    by (rule Math_fround_finite) (simp add: ax assms(2))
  ultimately show ?thesis by simp
qed

section \<open>Claims about the manual edit toggle\<close>

subsection \<open>C1: the toggle as a case split\<close>

text \<open>
  C1, as the specification states it, ends every insertion with a re-sort and a
  re-deduplication of the shot set. The handler sorts, and has no step that removes
  duplicates. At a sample rate of 10 Hz, with one shot at time 0 (index 0), a click at
  1/32 s finds no shot within the tolerance, so the time is pushed; its index is
  \<open>round (0.3125) = 0\<close>, and the new index list holds 0 twice.
\<close>

theorem toggle_leaves_duplicate_indices: "findIndex (withinTolerance (1 / 32)) [0] = None \<and>
   newPeaks 10 (toggleTimes [0] (1 / 32)) = [0, 0] \<and>
   \<not> distinct (newPeaks 10 (toggleTimes [0] (1 / 32)))"
  by (simp add: newPeaks_def toggleTimes_def withinTolerance_def tolerance_def Math_round_def)

text \<open>
  C1, amended. The tolerance is the constant 0.01 s and the test is strict. If some shot
  lies within the tolerance of the clicked time \<open>t\<close>, the first such shot (in array order)
  is spliced out and the array is sorted. Otherwise \<open>t\<close> is pushed, the array is sorted,
  and the index list holds \<open>round (t * r)\<close>. The shot times come out ascending, and so do
  the indices for a sample rate \<open>r \<ge> 0\<close>. Nothing removes duplicates; the indices are
  free of duplicates after the call whenever they were before it and \<open>r \<ge> 100\<close>.
\<close>

theorem onPeakToggle_case_split:
  "((\<exists>s\<in>set S. \<bar>s - t\<bar> < 1 / 100) \<longrightarrow>
      (\<exists>i<length S. \<bar>S ! i - t\<bar> < 1 / 100 \<and> (\<forall>j<i. \<not> \<bar>S ! j - t\<bar> < 1 / 100) \<and>
         toggleTimes S t = sort (splice1 i S))) \<and>
   ((\<forall>s\<in>set S. \<not> \<bar>s - t\<bar> < 1 / 100) \<longrightarrow>
      toggleTimes S t = sort (S @ [t]) \<and>
      Math_round (t * r) \<in> set (newPeaks r (toggleTimes S t))) \<and>
   sorted (toggleTimes S t) \<and>
   (0 \<le> r \<longrightarrow> sorted (newPeaks r (toggleTimes S t))) \<and>
   (100 \<le> r \<and> distinct (newPeaks r S) \<longrightarrow> distinct (newPeaks r (toggleTimes S t)))"
proof -
  have P: "withinTolerance t = (\<lambda>s. \<bar>s - t\<bar> < 1 / 100)"
    by (rule ext) (simp add: withinTolerance_def tolerance_def)
  have a: "(\<exists>s\<in>set S. \<bar>s - t\<bar> < 1 / 100) \<longrightarrow>
      (\<exists>i<length S. \<bar>S ! i - t\<bar> < 1 / 100 \<and> (\<forall>j<i. \<not> \<bar>S ! j - t\<bar> < 1 / 100) \<and>
         toggleTimes S t = sort (splice1 i S))"
  proof
    assume "\<exists>s\<in>set S. \<bar>s - t\<bar> < 1 / 100"
    then have "findIndex (withinTolerance t) S \<noteq> None"
      by (simp add: findIndex_None_iff P)
    then obtain i where i: "findIndex (withinTolerance t) S = Some i" by auto
    from findIndex_SomeD [OF i] toggleTimes_remove [OF i]
    show "\<exists>i<length S. \<bar>S ! i - t\<bar> < 1 / 100 \<and> (\<forall>j<i. \<not> \<bar>S ! j - t\<bar> < 1 / 100) \<and>
         toggleTimes S t = sort (splice1 i S)"
      unfolding P by blast
  qed
  have b: "(\<forall>s\<in>set S. \<not> \<bar>s - t\<bar> < 1 / 100) \<longrightarrow>
      toggleTimes S t = sort (S @ [t]) \<and>
      Math_round (t * r) \<in> set (newPeaks r (toggleTimes S t))"
  proof
    assume "\<forall>s\<in>set S. \<not> \<bar>s - t\<bar> < 1 / 100"
    then have n: "findIndex (withinTolerance t) S = None"
      by (simp add: findIndex_None_iff P)
    show "toggleTimes S t = sort (S @ [t]) \<and>
      Math_round (t * r) \<in> set (newPeaks r (toggleTimes S t))"
      by (simp add: toggleTimes_insert [OF n] newPeaks_def)
  qed
  have c: "sorted (toggleTimes S t)" by (rule sorted_toggleTimes)
  have d: "0 \<le> r \<longrightarrow> sorted (newPeaks r (toggleTimes S t))"
    using sorted_newPeaks [OF _ c] by blast
  have e: "100 \<le> r \<and> distinct (newPeaks r S) \<longrightarrow> distinct (newPeaks r (toggleTimes S t))"
    using distinct_newPeaks_toggle by blast
  from a b c d e show ?thesis by blast
qed

theorem onPeakToggle_case_split_witness:
  "toggleTimes [1, 2, 3] (2 + 1 / 200) = [1, 3] \<and>
   toggleTimes [1, 3] 2 = [1, 2, 3] \<and>
   newPeaks 44100 (toggleTimes [1, 3] 2) = [44100, 88200, 132300] \<and>
   distinct (newPeaks 44100 (toggleTimes [1, 3] 2))"
proof -
  have d: "distinct (newPeaks 44100 [1, 3])"
    by (simp add: newPeaks_def Math_round_def)
  have "distinct (newPeaks 44100 (toggleTimes [1, 3] 2))"
    using onPeakToggle_case_split [of "[1, 3]" 2 44100] d
    by (simp add: newPeaks_def Math_round_def)
  moreover have "toggleTimes [1, 2, 3] (2 + 1 / 200) = [1, 3]"
    using onPeakToggle_case_split [of "[1, 2, 3]" "2 + 1 / 200" 44100]
    by (simp add: toggleTimes_def withinTolerance_def tolerance_def splice1_def)
  moreover have "toggleTimes [1, 3] 2 = [1, 2, 3]"
    using onPeakToggle_case_split [of "[1, 3]" 2 44100] by simp
  ultimately show ?thesis
    by (simp add: newPeaks_def Math_round_def)
qed

subsection \<open>C3: toggling twice at a time that was not present\<close>

text \<open>
  C3. For an ascending shot set \<open>S\<close> and a clicked time \<open>t\<close> with no shot of \<open>S\<close> within the
  tolerance, the first call inserts \<open>t\<close>, the second call finds \<open>t\<close> itself as the first
  shot within the tolerance and removes it, and the shot times (and with them the index
  list, at every sample rate) are those of \<open>S\<close> again.
\<close>

theorem toggle_round_trip:
  assumes "sorted S" and "\<forall>s\<in>set S. \<not> \<bar>s - t\<bar> < tolerance"
  shows "toggleTimes S t = sort (S @ [t]) \<and>
         t \<in> set (toggleTimes S t) \<and>
         (\<exists>i. findIndex (withinTolerance t) (toggleTimes S t) = Some i \<and> toggleTimes S t ! i = t) \<and>
         toggleTimes (toggleTimes S t) t = S \<and>
         newPeaks r (toggleTimes (toggleTimes S t) t) = newPeaks r S"
proof -
  have n: "findIndex (withinTolerance t) S = None"
    using assms(2) by (simp add: findIndex_None_iff withinTolerance_def)
  have ins: "toggleTimes S t = sort (S @ [t])" by (rule toggleTimes_insert [OF n])
  have mem: "t \<in> set (toggleTimes S t)" by (simp add: ins)
  have "withinTolerance t t" by (simp add: withinTolerance_def tolerance_def)
  with mem have "findIndex (withinTolerance t) (toggleTimes S t) \<noteq> None"
    by (auto simp: findIndex_None_iff)
  then obtain i where i: "findIndex (withinTolerance t) (toggleTimes S t) = Some i" by auto
  from findIndex_SomeD [OF i] have "i < length (toggleTimes S t)"
    and w: "withinTolerance t (toggleTimes S t ! i)" by auto
  then have "toggleTimes S t ! i \<in> insert t (set S)"
    using set_toggleTimes [of S t] nth_mem by blast
  with w assms(2) have "toggleTimes S t ! i = t"
    by (auto simp: withinTolerance_def)
  with i ins mem round_trip_times [OF assms(1) n] show ?thesis by simp
qed

theorem toggle_round_trip_witness:
  "toggleTimes [1, 3] 2 = [1, 2, 3] \<and> toggleTimes (toggleTimes [1, 3] 2) 2 = [1, 3]"
proof -
  have s: "sorted [1, 3 :: real]" by simp
  have f: "\<forall>s\<in>set [1, 3 :: real]. \<not> \<bar>s - 2\<bar> < tolerance"
    by (simp add: tolerance_def)
  from toggle_round_trip [OF s f, of 1] show ?thesis
    by (simp add: toggleTimes_def withinTolerance_def tolerance_def splice1_def)
qed

subsection \<open>C10: the tolerance is the constant 0.01 and the test is strict\<close>

text \<open>
  C10. The tolerance is 1/100 s; \<open>toggleTimes\<close> takes the shot times and the clicked time
  and nothing else, so neither the configuration nor the sample rate enters the test.
  When every shot is at distance 0.01 or more from the click, the click is inserted; a
  shot at distance exactly 0.01, on either side, stays and the click is added next to
  it. A shot strictly closer than 0.01 makes the call a removal.
\<close>

theorem tolerance_fixed_and_strict:
  "tolerance = 1 / 100 \<and>
   ((\<forall>s\<in>set S. 1 / 100 \<le> \<bar>s - t\<bar>) \<longrightarrow> toggleTimes S t = sort (S @ [t])) \<and>
   ((\<exists>s\<in>set S. \<bar>s - t\<bar> < 1 / 100) \<longrightarrow> length (toggleTimes S t) + 1 = length S) \<and>
   toggleTimes [s] (s + 1 / 100) = [s, s + 1 / 100] \<and>
   toggleTimes [s] (s - 1 / 100) = [s - 1 / 100, s]"
proof -
  have a: "(\<forall>s\<in>set S. 1 / 100 \<le> \<bar>s - t\<bar>) \<longrightarrow> toggleTimes S t = sort (S @ [t])"
  proof
    assume "\<forall>s\<in>set S. 1 / 100 \<le> \<bar>s - t\<bar>"
    then have "findIndex (withinTolerance t) S = None"
      by (auto simp: findIndex_None_iff withinTolerance_def tolerance_def)
    then show "toggleTimes S t = sort (S @ [t])" by (rule toggleTimes_insert)
  qed
  have b: "(\<exists>s\<in>set S. \<bar>s - t\<bar> < 1 / 100) \<longrightarrow> length (toggleTimes S t) + 1 = length S"
  proof
    assume "\<exists>s\<in>set S. \<bar>s - t\<bar> < 1 / 100"
    then have "findIndex (withinTolerance t) S \<noteq> None"
      by (auto simp: findIndex_None_iff withinTolerance_def tolerance_def)
    then obtain i where i: "findIndex (withinTolerance t) S = Some i" by auto
    from findIndex_SomeD [OF i] have "i < length S" by simp
    then show "length (toggleTimes S t) + 1 = length S"
      by (simp add: toggleTimes_remove [OF i] splice1_def)
  qed
  have c: "toggleTimes [s] (s + 1 / 100) = [s, s + 1 / 100]"
    by (simp add: toggleTimes_def withinTolerance_def tolerance_def)
  have d: "toggleTimes [s] (s - 1 / 100) = [s - 1 / 100, s]"
    by (simp add: toggleTimes_def withinTolerance_def tolerance_def)
  from a b c d show ?thesis by (simp add: tolerance_def)
qed

theorem tolerance_fixed_and_strict_witness:
  "toggleTimes [0] (1 / 100) = [0, 1 / 100] \<and> toggleTimes [0, 1] (1 / 200) = [1]"
proof -
  have "toggleTimes [0] (1 / 100) = [0, 1 / 100]"
    using tolerance_fixed_and_strict [of "[0]" "1 / 100" 0] by simp
  moreover have "length (toggleTimes [0, 1] (1 / 200)) + 1 = length [0, 1 :: real]"
    using tolerance_fixed_and_strict [of "[0, 1]" "1 / 200" 0] by simp
  moreover have "toggleTimes [0, 1] (1 / 200) = [1]"
    by (simp add: toggleTimes_def withinTolerance_def tolerance_def splice1_def)
  ultimately show ?thesis by simp
qed

subsection \<open>C2: the shot set stays strictly increasing and in range\<close>

text \<open>
  C2, as the specification states it, holds for every sequence of manual toggles. The
  handler does not compare the clicked time with the length of the recording: for a
  recording of 44100 samples at 44100 Hz (one second) and an empty shot set, a toggle at
  2 s puts the index 88200 into the index list, outside \<open>[0, 44100)\<close>.
\<close>

theorem toggle_index_out_of_range:
  "shotSetOk 44100 44100 [] \<and>
   newPeaks 44100 (toggleAll [] [2]) = [88200] \<and>
   \<not> list_all (\<lambda>p. 0 \<le> p \<and> p < int 44100) (newPeaks 44100 (toggleAll [] [2]))"
  by (simp add: shotSetOk_def newPeaks_def toggleAll_def toggleTimes_def Math_round_def)

text \<open>
  C2, amended. Let the sample rate be at least 100 Hz, let the shot times before the
  edits be ascending, with pairwise different sample indices, and on the time axis of the
  recording (\<open>0 \<le> t \<le> (n - 1) / r\<close>), and let every clicked time lie on that axis. Then
  after any sequence of toggles the shot times still satisfy this invariant, the index
  list is strictly increasing, and every index lies in \<open>[0, n)\<close>. (Automatic detection is
  not among the sources: its result enters as the starting shot set.)
\<close>

theorem toggles_keep_shot_set_invariant:
  assumes "100 \<le> r" and "shotSetOk n r S" and "list_all (onTimeAxis n r) clicks"
  shows "shotSetOk n r (toggleAll S clicks) \<and>
         sorted_wrt (<) (newPeaks r (toggleAll S clicks)) \<and>
         list_all (\<lambda>p. 0 \<le> p \<and> p < int n) (newPeaks r (toggleAll S clicks))"
proof -
  have ok: "shotSetOk n r (toggleAll S clicks)"
    by (rule shotSetOk_toggleAll [OF assms])
  from assms(1) have "0 \<le> r" by simp
  from shotSetOk_indices [OF this ok] ok show ?thesis by simp
qed

theorem toggles_keep_shot_set_invariant_witness:
  "shotSetOk 200000 44100 [1, 3] \<and>
   list_all (onTimeAxis 200000 44100) [2, 1 + 1 / 200] \<and>
   toggleAll [1, 3] [2, 1 + 1 / 200] = [2, 3] \<and>
   sorted_wrt (<) (newPeaks 44100 (toggleAll [1, 3] [2, 1 + 1 / 200])) \<and>
   list_all (\<lambda>p. 0 \<le> p \<and> p < int 200000) (newPeaks 44100 (toggleAll [1, 3] [2, 1 + 1 / 200]))"
proof -
  have r: "(100::real) \<le> 44100" by simp
  have s: "shotSetOk 200000 44100 [1, 3]"
    by (simp add: shotSetOk_def newPeaks_def Math_round_def onTimeAxis_def)
  have c: "list_all (onTimeAxis 200000 44100) [2, 1 + 1 / 200]"
    by (simp add: onTimeAxis_def)
  have e: "toggleAll [1, 3] [2, 1 + 1 / 200] = [2, 3]"
    by (simp add: toggleAll_def toggleTimes_def withinTolerance_def tolerance_def splice1_def)
  from toggles_keep_shot_set_invariant [OF r s c] s c e show ?thesis by simp
qed

subsection \<open>C7: every edit recomputes bursts and summary\<close>

text \<open>
  C7, with the three detector methods as the specification describes them. With no
  detector or no current results the handler changes nothing. Otherwise it calls the
  segmenter and the cadence calculator on the detector that already holds the edited
  shot times: the groups stored in the detector are the segmentation of the edited shot
  times, the new burst list is the statistics of exactly these groups, and the new
  summary is the summary of exactly these bursts, that is, what a run of segmenter and
  calculator from scratch on the edited shot set gives. The handler computes no
  statistic of its own. Burst list, summary and index list replace the old ones in one
  assignment, and they are the same whatever groups the detector held and whatever
  results were current before the edit: nothing of the previous values is patched.
\<close>

theorem edit_recomputes_from_scratch:
  "(detector st = None \<or> currentResults st = None \<longrightarrow> onPeakToggle specMethods st t = st) \<and>
   (detector st = Some d \<and> currentResults st = Some res \<longrightarrow>
      (let ts = toggleTimes (shotTimes d) t;
           gs = segment ts (params d)
       in detector (onPeakToggle specMethods st t) =
            Some (d\<lparr>shotTimes := ts, detectorBursts := gs\<rparr>) \<and>
          currentResults (onPeakToggle specMethods st t) =
            Some (res\<lparr>summary := Option.bind (calculate gs) summaryOf,
                      bursts := statsFrom 1 gs,
                      peaks := newPeaks (sampleRate d) ts\<rparr>) \<and>
          those (statsFrom 1 gs) = calculate gs) \<and>
      (\<forall>staleBursts stale.
         (let st' = st\<lparr>detector := Some (d\<lparr>detectorBursts := staleBursts\<rparr>),
                        currentResults := Some stale\<rparr>
          in map_option (\<lambda>x. (summary x, bursts x, peaks x))
               (currentResults (onPeakToggle specMethods st' t)) =
             map_option (\<lambda>x. (summary x, bursts x, peaks x))
               (currentResults (onPeakToggle specMethods st t)) \<and>
             map_option (\<lambda>x. (shotTimes x, detectorBursts x))
               (detector (onPeakToggle specMethods st' t)) =
             map_option (\<lambda>x. (shotTimes x, detectorBursts x))
               (detector (onPeakToggle specMethods st t)))))"
proof (intro conjI impI)
  assume "detector st = None \<or> currentResults st = None"
  then show "onPeakToggle specMethods st t = st" by (rule onPeakToggle_idle)
next
  assume a: "detector st = Some d \<and> currentResults st = Some res"
  then have d: "detector st = Some d" and r: "currentResults st = Some res" by simp_all
  show "let ts = toggleTimes (shotTimes d) t;
            gs = segment ts (params d)
        in detector (onPeakToggle specMethods st t) =
             Some (d\<lparr>shotTimes := ts, detectorBursts := gs\<rparr>) \<and>
           currentResults (onPeakToggle specMethods st t) =
             Some (res\<lparr>summary := Option.bind (calculate gs) summaryOf,
                       bursts := statsFrom 1 gs,
                       peaks := newPeaks (sampleRate d) ts\<rparr>) \<and>
           those (statsFrom 1 gs) = calculate gs"
    by (simp add: Let_def onPeakToggle_specMethods [OF d r] those_statsFrom calculate_def)
  show "\<forall>staleBursts stale.
         (let st' = st\<lparr>detector := Some (d\<lparr>detectorBursts := staleBursts\<rparr>),
                        currentResults := Some stale\<rparr>
          in map_option (\<lambda>x. (summary x, bursts x, peaks x))
               (currentResults (onPeakToggle specMethods st' t)) =
             map_option (\<lambda>x. (summary x, bursts x, peaks x))
               (currentResults (onPeakToggle specMethods st t)) \<and>
             map_option (\<lambda>x. (shotTimes x, detectorBursts x))
               (detector (onPeakToggle specMethods st' t)) =
             map_option (\<lambda>x. (shotTimes x, detectorBursts x))
               (detector (onPeakToggle specMethods st t)))"
  proof (intro allI)
    fix staleBursts :: "real list list" and stale :: "(burst option, summary option, 'a) results_scheme"
    define st' where "st' = st\<lparr>detector := Some (d\<lparr>detectorBursts := staleBursts\<rparr>),
                        currentResults := Some stale\<rparr>"
    have d': "detector st' = Some (d\<lparr>detectorBursts := staleBursts\<rparr>)"
      and r': "currentResults st' = Some stale" by (simp_all add: st'_def)
    show "let st' = st\<lparr>detector := Some (d\<lparr>detectorBursts := staleBursts\<rparr>),
                        currentResults := Some stale\<rparr>
          in map_option (\<lambda>x. (summary x, bursts x, peaks x))
               (currentResults (onPeakToggle specMethods st' t)) =
             map_option (\<lambda>x. (summary x, bursts x, peaks x))
               (currentResults (onPeakToggle specMethods st t)) \<and>
             map_option (\<lambda>x. (shotTimes x, detectorBursts x))
               (detector (onPeakToggle specMethods st' t)) =
             map_option (\<lambda>x. (shotTimes x, detectorBursts x))
               (detector (onPeakToggle specMethods st t))"
      unfolding Let_def st'_def [symmetric]
      by (simp add: onPeakToggle_specMethods [OF d r] onPeakToggle_specMethods [OF d' r'])
  qed
qed

theorem edit_recomputes_from_scratch_witness:
  "currentResults
     (onPeakToggle specMethods
        \<lparr>detector = Some \<lparr>shotTimes = [0, 1 / 10, 1 / 5], sampleRate = 44100, audioData = [],
                           params = defaultConfig\<lparr>minBurstCount := 2\<rparr>,
                           detectorBursts = [[7]]\<rparr>,
         currentResults = Some \<lparr>summary = None, bursts = [None], peaks = [],
                                 audioDuration = 1\<rparr>\<rparr>
        (3 / 10))
   = Some \<lparr>summary =
             Some \<lparr>totalShots = 4, totalBursts = 1, meanBurstRateRpm = 600,
                   minBurstRateRpm = 600, maxBurstRateRpm = 600, avgStdInterval = 0,
                   avgMeanDeviation = 0\<rparr>,
           bursts =
             [Some \<lparr>burstNumber = 1, numShots = 4, startTime = 0, endTime = 3 / 10,
                    duration = 3 / 10, meanInterval = 1 / 10, stdInterval = 0,
                    meanDeviation = 0, rateRpm = 600\<rparr>],
           peaks = [0, 4410, 8820, 13230], audioDuration = 1\<rparr>"
proof -
  have t: "toggleTimes [0, 1 / 10, 1 / 5] (3 / 10) = [0, 1 / 10, 1 / 5, 3 / 10]"
    by (simp add: toggleTimes_def withinTolerance_def tolerance_def)
  have g: "segment [0, 1 / 10, 1 / 5, 3 / 10] (defaultConfig\<lparr>minBurstCount := 2\<rparr>)
             = [[0, 1 / 10, 1 / 5, 3 / 10]]"
    by (simp add: segment_def defaultConfig_def)
  have b: "burstStats (Suc 0) [0, 1 / 10, 1 / 5, 3 / 10] =
             Some \<lparr>burstNumber = Suc 0, numShots = 4, startTime = 0, endTime = 3 / 10,
                   duration = 3 / 10, meanInterval = 1 / 10, stdInterval = 0,
                   meanDeviation = 0, rateRpm = 600\<rparr>"
    by (simp add: burstStats_def meanOf_def js_divide_def js_sqrt_def)
  have s: "summaryOf [\<lparr>burstNumber = Suc 0, numShots = 4, startTime = 0, endTime = 3 / 10,
                   duration = 3 / 10, meanInterval = 1 / 10, stdInterval = 0,
                   meanDeviation = 0, rateRpm = 600\<rparr>] =
             Some \<lparr>totalShots = 4, totalBursts = 1, meanBurstRateRpm = 600,
                   minBurstRateRpm = 600, maxBurstRateRpm = 600, avgStdInterval = 0,
                   avgMeanDeviation = 0\<rparr>"
    by (simp add: summaryOf_def meanOf_def js_divide_def extremum_def)
  have p: "newPeaks 44100 [0, 1 / 10, 1 / 5, 3 / 10] = [0, 4410, 8820, 13230]"
    by (simp add: newPeaks_def Math_round_def)
  show ?thesis
    using edit_recomputes_from_scratch
      [of "\<lparr>detector = Some \<lparr>shotTimes = [0, 1 / 10, 1 / 5], sampleRate = 44100, audioData = [],
                           params = defaultConfig\<lparr>minBurstCount := 2\<rparr>,
                           detectorBursts = [[7]]\<rparr>,
         currentResults = Some \<lparr>summary = None, bursts = [None], peaks = [],
                                 audioDuration = 1\<rparr>\<rparr>"
          "3 / 10"
          "\<lparr>shotTimes = [0, 1 / 10, 1 / 5], sampleRate = 44100, audioData = [],
                           params = defaultConfig\<lparr>minBurstCount := 2\<rparr>,
                           detectorBursts = [[7]]\<rparr>"
          "\<lparr>summary = None, bursts = [None], peaks = [], audioDuration = 1\<rparr>"]
    by (simp add: Let_def t g b s p calculate_def)
qed

section \<open>Claims about the visualizer\<close>

subsection \<open>C8: from a shot index to its time\<close>

text \<open>
  C8, as the specification states it, makes the time of a shot equal to
  \<open>index / sampleRate\<close> everywhere, and every entry of the time axis equal to
  \<open>i / sampleRate\<close>. Neither holds. The handler of a manual edit stores the clicked time
  itself in \<open>detector.shotTimes\<close> (from which bursts and rates are computed) and derives
  the index by rounding: at 44100 Hz a shot added at \<open>1/2 + 1/1048576\<close> s has index 22050,
  and the chart draws it at \<open>22050 / 44100 = 1/2\<close> s, which is not the stored time. And
  the time axis is a \<open>Float32Array\<close>: at 44100 Hz its entry 1 is \<open>12466118 / 2^39\<close>, the
  single nearest to \<open>1 / 44100\<close>, which is neither \<open>1 / 44100\<close> nor the double nearest
  to it (\<open>6692696262570359 / 2^68\<close>).
\<close>

theorem shot_time_differs_from_index_time:
  "toggleTimes [] (1 / 2 + 1 / 1048576) = [1 / 2 + 1 / 1048576] \<and>
   newPeaks 44100 (toggleTimes [] (1 / 2 + 1 / 1048576)) = [22050] \<and>
   peakTimes 44100 (newPeaks 44100 (toggleTimes [] (1 / 2 + 1 / 1048576))) = [Some (1 / 2)] \<and>
   peakTimes 44100 (newPeaks 44100 (toggleTimes [] (1 / 2 + 1 / 1048576)))
     \<noteq> map Some (toggleTimes [] (1 / 2 + 1 / 1048576)) \<and>
   createTimeArray 2 44100 = [Some 0, Some (12466118 / 2 ^ 39)] \<and>
   createTimeArray 2 44100 ! 1 \<noteq> Some (1 / 44100) \<and>
   binaryRound 53 (- 1074) (1 / 44100) = 6692696262570359 / 2 ^ 68 \<and>
   Math_fround (6692696262570359 / 2 ^ 68) = Some (12466118 / 2 ^ 39) \<and>
   Math_fround (6692696262570359 / 2 ^ 68) \<noteq> Some (6692696262570359 / 2 ^ 68)"
proof -
  have a: "toggleTimes [] (1 / 2 + 1 / 1048576) = [1 / 2 + 1 / 1048576] \<and>
   newPeaks 44100 (toggleTimes [] (1 / 2 + 1 / 1048576)) = [22050] \<and>
   peakTimes 44100 (newPeaks 44100 (toggleTimes [] (1 / 2 + 1 / 1048576))) = [Some (1 / 2)] \<and>
   peakTimes 44100 (newPeaks 44100 (toggleTimes [] (1 / 2 + 1 / 1048576)))
     \<noteq> map Some (toggleTimes [] (1 / 2 + 1 / 1048576))"
    by (simp add: peakTimes_def newPeaks_def toggleTimes_def Math_round_def js_divide_def)
  have c: "createTimeArray 2 44100 = [Some 0, Some (12466118 / 2 ^ 39)]"
    using fround_example
    by (simp add: createTimeArray_def js_divide_def numeral_2_eq_2 upt_conv_Cons Math_fround_zero)
  have l: "\<lfloor>log 2 \<bar>6692696262570359 / 2 ^ 68 :: real\<bar>\<rfloor> = - 16"
    by (rule floor_log2_eqI) (simp_all add: pow2_def)
  have f: "Math_fround (6692696262570359 / 2 ^ 68) = Some (12466118 / 2 ^ 39)"
    using l
    by (simp add: Math_fround_def binaryRound_def Let_def pow2_def roundHalfEven_def maxFloat32_def)
  have c2: "createTimeArray 2 44100 ! 1 \<noteq> Some (1 / 44100)"
    unfolding c by simp
  have f2: "Math_fround (6692696262570359 / 2 ^ 68) \<noteq> Some (6692696262570359 / 2 ^ 68)"
    unfolding f by simp
  from a c c2 double_example f f2 show ?thesis by blast
qed

text \<open>
  C8, amended. Where an index is turned into a time (\<open>render\<close>, line 51) the time is
  \<open>index / sampleRate\<close>, with no offset. The index of a stored shot time \<open>t\<close> is
  \<open>round (t * sampleRate)\<close>, so the drawn time of a shot need not be its stored time:
  for a positive sample rate the two differ by less than one sample period,
  \<open>1 / sampleRate\<close>. The time axis of the waveform has one entry per sample, and entry
  \<open>i\<close> is \<open>i / sampleRate\<close> rounded to single precision: where the quotient is 0 or at
  least \<open>2^-126\<close>, and at most the largest single, the entry is a number within
  \<open>(i / sampleRate) / 2^23\<close> of the quotient; where the quotient is \<open>2^128\<close> or more
  the entry is an infinity.
\<close>

theorem index_to_time_mapping:
  "(r \<noteq> 0 \<longrightarrow> peakTimes r ps = map (\<lambda>idx. Some (real_of_int idx / r)) ps) \<and>
   length (peakTimes r (newPeaks r ts)) = length ts \<and>
   (0 < r \<longrightarrow>
      (\<forall>k<length ts. \<exists>x. peakTimes r (newPeaks r ts) ! k = Some x \<and> \<bar>x - ts ! k\<bar> < 1 / r)) \<and>
   length (createTimeArray len r) = len \<and>
   (0 < r \<longrightarrow>
      (\<forall>i<len.
         createTimeArray len r ! i = Math_fround (real i / r) \<and>
         (real i / r \<le> maxFloat32 \<and> (i = 0 \<or> 1 / 2 ^ 126 \<le> real i / r) \<longrightarrow>
            (\<exists>y. createTimeArray len r ! i = Some y \<and>
                 \<bar>y - real i / r\<bar> \<le> (real i / r) / 2 ^ 23)) \<and>
         (2 ^ 128 \<le> real i / r \<longrightarrow> createTimeArray len r ! i = None)))"
proof -
  have a: "r \<noteq> 0 \<longrightarrow> peakTimes r ps = map (\<lambda>idx. Some (real_of_int idx / r)) ps"
    by (simp add: peakTimes_def js_divide_def)
  have b: "length (peakTimes r (newPeaks r ts)) = length ts"
    by (simp add: peakTimes_def newPeaks_def)
  have c: "0 < r \<longrightarrow>
      (\<forall>k<length ts. \<exists>x. peakTimes r (newPeaks r ts) ! k = Some x \<and> \<bar>x - ts ! k\<bar> < 1 / r)"
    using Math_round_within_sample [of r]
    by (simp add: peakTimes_def newPeaks_def js_divide_def)
  have d: "length (createTimeArray len r) = len"
    by (simp add: createTimeArray_def)
  have e: "0 < r \<longrightarrow>
      (\<forall>i<len.
         createTimeArray len r ! i = Math_fround (real i / r) \<and>
         (real i / r \<le> maxFloat32 \<and> (i = 0 \<or> 1 / 2 ^ 126 \<le> real i / r) \<longrightarrow>
            (\<exists>y. createTimeArray len r ! i = Some y \<and>
                 \<bar>y - real i / r\<bar> \<le> (real i / r) / 2 ^ 23)) \<and>
         (2 ^ 128 \<le> real i / r \<longrightarrow> createTimeArray len r ! i = None))"
  proof (intro impI allI)
    fix i
    assume r: "0 < r" and i: "i < len"
    then have n: "createTimeArray len r ! i = Math_fround (real i / r)"
      by (simp add: createTimeArray_nth)
    have nonneg: "0 \<le> real i / r" using r by simp
    have rel: "real i / r \<le> maxFloat32 \<and> (i = 0 \<or> 1 / 2 ^ 126 \<le> real i / r) \<longrightarrow>
            (\<exists>y. createTimeArray len r ! i = Some y \<and>
                 \<bar>y - real i / r\<bar> \<le> (real i / r) / 2 ^ 23)"
    proof
      assume h: "real i / r \<le> maxFloat32 \<and> (i = 0 \<or> 1 / 2 ^ 126 \<le> real i / r)"
      then have "real i / r = 0 \<or> 1 / 2 ^ 126 \<le> real i / r" by auto
      with h nonneg show "\<exists>y. createTimeArray len r ! i = Some y \<and>
                 \<bar>y - real i / r\<bar> \<le> (real i / r) / 2 ^ 23"
        unfolding n by (intro Math_fround_relative) simp_all
    qed
    have ov: "2 ^ 128 \<le> real i / r \<longrightarrow> createTimeArray len r ! i = None"
    proof
      assume "2 ^ 128 \<le> real i / r"
      then have "2 ^ 128 \<le> \<bar>real i / r\<bar>" using nonneg by linarith
      then show "createTimeArray len r ! i = None"
        unfolding n by (rule Math_fround_overflow)
    qed
    from n rel ov show "createTimeArray len r ! i = Math_fround (real i / r) \<and>
         (real i / r \<le> maxFloat32 \<and> (i = 0 \<or> 1 / 2 ^ 126 \<le> real i / r) \<longrightarrow>
            (\<exists>y. createTimeArray len r ! i = Some y \<and>
                 \<bar>y - real i / r\<bar> \<le> (real i / r) / 2 ^ 23)) \<and>
         (2 ^ 128 \<le> real i / r \<longrightarrow> createTimeArray len r ! i = None)"
      by blast
  qed
  from a b c d e show ?thesis by blast
qed

theorem index_to_time_mapping_witness:
  "peakTimes 44100 [0, 44100] = [Some 0, Some 1] \<and>
   (\<exists>x. peakTimes 44100 (newPeaks 44100 [1 / 2 + 1 / 1048576]) ! 0 = Some x \<and>
        \<bar>x - [1 / 2 + 1 / 1048576] ! 0\<bar> < 1 / 44100) \<and>
   createTimeArray 2 44100 ! 1 = Some (12466118 / 2 ^ 39) \<and>
   (\<exists>y. createTimeArray 2 44100 ! 1 = Some y \<and> \<bar>y - real 1 / 44100\<bar> \<le> (real 1 / 44100) / 2 ^ 23) \<and>
   createTimeArray 2 (1 / 2 ^ 200) ! 1 = None"
proof -
  note T = index_to_time_mapping [of 44100 "[0, 44100]" "[1 / 2 + 1 / 1048576]" 2]
  note U = index_to_time_mapping [of "1 / 2 ^ 200" "[]" "[]" 2]
  have r: "(0::real) < 44100" and r0: "(44100::real) \<noteq> 0" by simp_all
  have i: "(1::nat) < 2" by simp
  have k: "(0::nat) < length [1 / 2 + 1 / 1048576 :: real]" by simp
  have a: "peakTimes 44100 [0, 44100] = [Some 0, Some 1]"
    using T r0 by simp
  have b: "\<exists>x. peakTimes 44100 (newPeaks 44100 [1 / 2 + 1 / 1048576]) ! 0 = Some x \<and>
        \<bar>x - [1 / 2 + 1 / 1048576] ! 0\<bar> < 1 / 44100"
    using T r k by blast
  have c0: "createTimeArray 2 44100 ! 1 = Math_fround (real 1 / 44100)"
    using T r i by blast
  have c: "createTimeArray 2 44100 ! 1 = Some (12466118 / 2 ^ 39)"
    unfolding c0 using fround_example by simp
  have h: "real 1 / 44100 \<le> maxFloat32 \<and> ((1::nat) = 0 \<or> 1 / 2 ^ 126 \<le> real 1 / 44100)"
    by (simp add: maxFloat32_def)
  have d: "\<exists>y. createTimeArray 2 44100 ! 1 = Some y \<and>
             \<bar>y - real 1 / 44100\<bar> \<le> (real 1 / 44100) / 2 ^ 23"
    using T r i h by blast
  have s: "(0::real) < 1 / 2 ^ 200" by simp
  have o: "2 ^ 128 \<le> real 1 / (1 / 2 ^ 200)" by simp
  have e: "createTimeArray 2 (1 / 2 ^ 200) ! 1 = None"
    using U s i o by blast
  from a b c d e show ?thesis by blast
qed

subsection \<open>C9: \<open>downsample\<close> keeps every \<open>step\<close>-th pair\<close>

text \<open>
  C9. For a data array and a time array of equal length and a positive \<open>maxPoints\<close>:
  when the length is at most \<open>maxPoints\<close> the call returns both arrays as they are;
  otherwise \<open>step = length div maxPoints\<close> is positive, the loop ends, and the call
  returns the values and the times at the indices \<open>0, step, 2 * step, ...\<close> below the
  length (the multiples of \<open>step\<close> below the length, in ascending order). Both outputs
  are the sublists of the inputs at those positions: no value is averaged or
  interpolated.
\<close>

theorem downsample_takes_every_step_th_pair:
  assumes "length timeArray = length data" and "0 < maxPoints"
  shows "(length data \<le> maxPoints \<longrightarrow>
            downsample data timeArray maxPoints = Some (data, map Some timeArray)) \<and>
         (maxPoints < length data \<longrightarrow>
            (let step = length data div maxPoints;
                 idx = strideIndices (length data) step
             in 0 < step \<and>
                downsample data timeArray maxPoints =
                  Some (map (\<lambda>i. data ! i) idx, map (\<lambda>i. Some (timeArray ! i)) idx) \<and>
                set idx = {i. i < length data \<and> step dvd i} \<and>
                sorted_wrt (<) idx \<and>
                map (\<lambda>i. data ! i) idx = nths data {i. step dvd i} \<and>
                map (\<lambda>i. timeArray ! i) idx = nths timeArray {i. step dvd i}))"
proof (intro conjI impI)
  assume "length data \<le> maxPoints"
  then show "downsample data timeArray maxPoints = Some (data, map Some timeArray)"
    by (simp add: downsample_def)
next
  assume big: "maxPoints < length data"
  define step where "step = length data div maxPoints"
  define idx where "idx = strideIndices (length data) step"
  have pos: "0 < step"
    using big assms(2) by (simp add: step_def div_greater_zero_iff)
  have inb: "\<forall>i\<in>set idx. i < length timeArray"
    by (simp add: idx_def set_strideIndices [OF pos] assms(1))
  then have t: "map (nth_opt timeArray) idx = map (\<lambda>i. Some (timeArray ! i)) idx"
    by (simp add: nth_opt_def)
  have d: "downsample data timeArray maxPoints =
             Some (map (\<lambda>i. data ! i) idx, map (\<lambda>i. Some (timeArray ! i)) idx)"
    using big assms(2) downsample_loop_closed [OF pos, of data timeArray]
    by (simp add: downsample_def step_def [symmetric] idx_def [symmetric] t)
  have n1: "map (\<lambda>i. data ! i) idx = nths data {i. step dvd i}"
    unfolding idx_def by (rule map_nth_strideIndices [OF pos])
  have n2: "map (\<lambda>i. timeArray ! i) idx = nths timeArray {i. step dvd i}"
    unfolding idx_def assms(1) [symmetric] by (rule map_nth_strideIndices [OF pos])
  show "let step = length data div maxPoints;
            idx = strideIndices (length data) step
        in 0 < step \<and>
           downsample data timeArray maxPoints =
             Some (map (\<lambda>i. data ! i) idx, map (\<lambda>i. Some (timeArray ! i)) idx) \<and>
           set idx = {i. i < length data \<and> step dvd i} \<and>
           sorted_wrt (<) idx \<and>
           map (\<lambda>i. data ! i) idx = nths data {i. step dvd i} \<and>
           map (\<lambda>i. timeArray ! i) idx = nths timeArray {i. step dvd i}"
    unfolding Let_def step_def [symmetric] idx_def [symmetric]
    using pos d n1 n2 set_strideIndices [OF pos, of "length data"]
      strict_sorted_strideIndices [OF pos, of "length data"]
    by (simp add: idx_def)
qed

theorem downsample_takes_every_step_th_pair_witness:
  "downsample [10, 11, 12, 13, 14, 15, 16 :: int] [0, 1, 2, 3, 4, 5, 6 :: int] 3
     = Some ([10, 12, 14, 16], [Some 0, Some 2, Some 4, Some 6]) \<and>
   downsample [10, 11 :: int] [0, 1 :: int] 3 = Some ([10, 11], [Some 0, Some 1])"
proof -
  have i: "strideIndices (Suc (Suc (Suc (Suc (Suc (Suc (Suc 0))))))) 2 = [0, 2, 4, 6]"
    by code_simp
  have "downsample [10, 11, 12, 13, 14, 15, 16 :: int] [0, 1, 2, 3, 4, 5, 6 :: int] 3
     = Some ([10, 12, 14, 16], [Some 0, Some 2, Some 4, Some 6])"
    using downsample_takes_every_step_th_pair
      [of "[0, 1, 2, 3, 4, 5, 6 :: int]" "[10, 11, 12, 13, 14, 15, 16 :: int]" 3]
    by (simp add: Let_def i)
  moreover have "downsample [10, 11 :: int] [0, 1 :: int] 3 = Some ([10, 11], [Some 0, Some 1])"
    using downsample_takes_every_step_th_pair [of "[0, 1 :: int]" "[10, 11 :: int]" 3]
    by simp
  ultimately show ?thesis by simp
qed

section \<open>Claims about the analysis kernel\<close>

subsection \<open>C4: a configuration outside its ranges is rejected\<close>

text \<open>
  C4, on the kernel as the specification describes it. The analysis returns the error
  \<open>InvalidConfiguration\<close> exactly when one of the six fields lies outside its range:
  \<open>peakThresholdStd\<close> outside 0.1 to 5.0, \<open>minShotSpacing\<close> outside 0.01 to 1.0,
  \<open>burstGapThreshold\<close> outside 0.05 to 2.0, \<open>windowSize\<close> outside 0.001 to 0.01,
  \<open>minPeakProminence\<close> outside 0.01 to 1.0, \<open>minBurstCount\<close> outside 1 to 50. The
  error does not depend on the samples or on the detection stage: nothing is computed
  with the value that is out of range.
\<close>

theorem invalid_configuration_rejected:
  "analyze detect samples r c = Inl InvalidConfiguration \<longleftrightarrow>
     (peakThresholdStd c < 1 / 10 \<or> 5 < peakThresholdStd c \<or>
      minShotSpacing c < 1 / 100 \<or> 1 < minShotSpacing c \<or>
      burstGapThreshold c < 5 / 100 \<or> 2 < burstGapThreshold c \<or>
      windowSize c < 1 / 1000 \<or> 1 / 100 < windowSize c \<or>
      minPeakProminence c < 1 / 100 \<or> 1 < minPeakProminence c \<or>
      minBurstCount c < 1 \<or> 50 < minBurstCount c)"
proof -
  have "analyze detect samples r c = Inl InvalidConfiguration \<longleftrightarrow> \<not> validConfig c"
    by (simp add: analyze_def Let_def split: option.splits)
  also have "\<dots> \<longleftrightarrow>
     (peakThresholdStd c < 1 / 10 \<or> 5 < peakThresholdStd c \<or>
      minShotSpacing c < 1 / 100 \<or> 1 < minShotSpacing c \<or>
      burstGapThreshold c < 5 / 100 \<or> 2 < burstGapThreshold c \<or>
      windowSize c < 1 / 1000 \<or> 1 / 100 < windowSize c \<or>
      minPeakProminence c < 1 / 100 \<or> 1 < minPeakProminence c \<or>
      minBurstCount c < 1 \<or> 50 < minBurstCount c)"
    unfolding validConfig_def by (simp only: de_Morgan_conj not_le)
  finally show ?thesis .
qed

theorem invalid_configuration_rejected_witness:
  "analyze (\<lambda>samples r c. [0, 4410]) [] 44100 (defaultConfig\<lparr>windowSize := 1 / 2\<rparr>)
     = Inl InvalidConfiguration \<and>
   analyze (\<lambda>samples r c. [0, 4410]) [] 44100 defaultConfig \<noteq> Inl InvalidConfiguration"
  using invalid_configuration_rejected
          [of "\<lambda>samples r c. [0, 4410]" "[]" 44100 "defaultConfig\<lparr>windowSize := 1 / 2\<rparr>"]
        invalid_configuration_rejected
          [of "\<lambda>samples r c. [0, 4410]" "[]" 44100 defaultConfig]
  by (simp add: defaultConfig_def)

subsection \<open>C5: statistics without division by zero\<close>

text \<open>
  C5, on the kernel as the specification describes it. A burst of one shot has
  \<open>meanInterval\<close>, \<open>stdInterval\<close>, \<open>meanDeviation\<close>, \<open>rateRpm\<close> and \<open>duration\<close> equal to 0.
  The mean of a zero-length list is the sentinel 0. For strictly increasing timestamps
  (the invariant of a shot set) the statistics of a burst are defined, whatever its
  length; so are those of a list of such bursts, and the summary of any list of bursts.
  For a valid configuration, a positive sample rate and a strictly increasing shot set
  the analysis returns a result: no division by zero and no square root of a negative
  number occurs on the way.
\<close>

theorem statistics_never_divide_by_zero:
  "burstStats k [t] =
     Some \<lparr>burstNumber = k, numShots = 1, startTime = t, endTime = t, duration = 0,
           meanInterval = 0, stdInterval = 0, meanDeviation = 0, rateRpm = 0\<rparr> \<and>
   meanOf [] = Some 0 \<and>
   (sorted_wrt (<) ts \<longrightarrow> (\<exists>b. burstStats k ts = Some b)) \<and>
   ((\<forall>g\<in>set gs. sorted_wrt (<) g) \<longrightarrow> (\<exists>bs. calculate gs = Some bs)) \<and>
   (\<exists>s. summaryOf bs = Some s) \<and>
   (validConfig c \<and> 0 < r \<and> sorted_wrt (<) (detect samples r c) \<longrightarrow>
      (\<exists>a. analyze detect samples r c = Inr a))"
proof -
  have a: "burstStats k [t] =
     Some \<lparr>burstNumber = k, numShots = 1, startTime = t, endTime = t, duration = 0,
           meanInterval = 0, stdInterval = 0, meanDeviation = 0, rateRpm = 0\<rparr>"
    by (simp add: burstStats_def)
  have b: "meanOf [] = Some 0" by (simp add: meanOf_def)
  have c: "sorted_wrt (<) ts \<longrightarrow> (\<exists>b. burstStats k ts = Some b)"
    using burstStats_defined by blast
  have d: "(\<forall>g\<in>set gs. sorted_wrt (<) g) \<longrightarrow> (\<exists>bs. calculate gs = Some bs)"
    unfolding calculate_def using calculateFrom_defined by blast
  have e: "\<exists>s. summaryOf bs = Some s" by (rule summaryOf_defined)
  have f: "validConfig c \<and> 0 < r \<and> sorted_wrt (<) (detect samples r c) \<longrightarrow>
      (\<exists>a. analyze detect samples r c = Inr a)"
    using analyze_defined by blast
  from a b c d e f show ?thesis by blast
qed

theorem statistics_never_divide_by_zero_witness:
  "burstStats 1 [0, 1 / 10, 2 / 10] =
     Some \<lparr>burstNumber = 1, numShots = 3, startTime = 0, endTime = 2 / 10, duration = 2 / 10,
           meanInterval = 1 / 10, stdInterval = 0, meanDeviation = 0, rateRpm = 600\<rparr> \<and>
   calculate [[0, 1 / 10, 2 / 10], [5]] =
     Some [\<lparr>burstNumber = 1, numShots = 3, startTime = 0, endTime = 2 / 10, duration = 2 / 10,
            meanInterval = 1 / 10, stdInterval = 0, meanDeviation = 0, rateRpm = 600\<rparr>,
           \<lparr>burstNumber = 2, numShots = 1, startTime = 5, endTime = 5, duration = 0,
            meanInterval = 0, stdInterval = 0, meanDeviation = 0, rateRpm = 0\<rparr>]"
proof -
  have s: "sorted_wrt (<) [0, 1 / 10, 2 / 10 :: real]" by simp
  have g: "\<forall>g\<in>set [[0, 1 / 10, 2 / 10], [5 :: real]]. sorted_wrt (<) g" by simp
  have one: "burstStats 1 [0, 1 / 10, 2 / 10] =
     Some \<lparr>burstNumber = 1, numShots = 3, startTime = 0, endTime = 2 / 10, duration = 2 / 10,
           meanInterval = 1 / 10, stdInterval = 0, meanDeviation = 0, rateRpm = 600\<rparr>"
    using statistics_never_divide_by_zero [of 1 0 "[0, 1 / 10, 2 / 10]"] s
    by (simp add: burstStats_def meanOf_def js_divide_def js_sqrt_def)
  moreover have "calculate [[0, 1 / 10, 2 / 10], [5]] =
     Some [\<lparr>burstNumber = 1, numShots = 3, startTime = 0, endTime = 2 / 10, duration = 2 / 10,
            meanInterval = 1 / 10, stdInterval = 0, meanDeviation = 0, rateRpm = 600\<rparr>,
           \<lparr>burstNumber = 2, numShots = 1, startTime = 5, endTime = 5, duration = 0,
            meanInterval = 0, stdInterval = 0, meanDeviation = 0, rateRpm = 0\<rparr>]"
    using statistics_never_divide_by_zero [of 2 5 _ "[[0, 1 / 10, 2 / 10], [5]]"] g one
    by (simp add: calculate_def burstStats_def)
  ultimately show ?thesis by simp
qed

subsection \<open>C6: no reported burst is not a failure\<close>

text \<open>
  C6, on the kernel as the specification describes it, and on \<open>displayROFResults\<close>. For a
  valid configuration and a sample rate other than 0, whenever the segmenter reports no
  burst the analysis returns a result (not an error) with an empty burst list, the
  summary whose seven fields are 0, and the shot set as detection produced it. The
  segmenter reports no burst for the empty shot set, and whenever every gap group is
  shorter than \<open>minBurstCount\<close>. For results with \<open>totalBursts = 0\<close> and no burst,
  \<open>displayROFResults\<close> shows no summary item, six empty slots and the message that no
  bursts were detected.
\<close>

theorem zero_bursts_give_zero_summary:
  "(validConfig c \<and> r \<noteq> 0 \<and>
    segment (map (\<lambda>i. real_of_int i / r) (detect samples r c)) c = [] \<longrightarrow>
      analyze detect samples r c =
        Inr \<lparr>shotSet = detect samples r c, burstList = [], summaryValue = zeroSummary\<rparr>) \<and>
   segment [] c = [] \<and>
   ((\<forall>g\<in>set (groupByGap (burstGapThreshold c) stamps). int (length g) < minBurstCount c) \<longrightarrow>
      segment stamps c = []) \<and>
   totalShots zeroSummary = 0 \<and> totalBursts zeroSummary = 0 \<and>
   meanBurstRateRpm zeroSummary = 0 \<and> minBurstRateRpm zeroSummary = 0 \<and>
   maxBurstRateRpm zeroSummary = 0 \<and> avgStdInterval zeroSummary = 0 \<and>
   avgMeanDeviation zeroSummary = 0 \<and>
   (totalBursts (summary res) = 0 \<and> bursts res = [] \<longrightarrow>
      displayROFResults res = \<lparr>items = [], emptySlots = 6, burstsPanel = NoBurstsDetected\<rparr>)"
proof -
  have z: "summaryOf [] = Some zeroSummary"
    by (simp add: summaryOf_def meanOf_def zeroSummary_def extremum_def)
  have a: "validConfig c \<and> r \<noteq> 0 \<and>
    segment (map (\<lambda>i. real_of_int i / r) (detect samples r c)) c = [] \<longrightarrow>
      analyze detect samples r c =
        Inr \<lparr>shotSet = detect samples r c, burstList = [], summaryValue = zeroSummary\<rparr>"
    by (simp add: analyze_def Let_def calculate_def z those_js_divide)
  have b: "(\<forall>g\<in>set (groupByGap (burstGapThreshold c) stamps). int (length g) < minBurstCount c) \<longrightarrow>
      segment stamps c = []"
    by (auto simp: segment_def filter_empty_conv)
  have d: "totalBursts (summary res) = 0 \<and> bursts res = [] \<longrightarrow>
      displayROFResults res = \<lparr>items = [], emptySlots = 6, burstsPanel = NoBurstsDetected\<rparr>"
    by (simp add: displayROFResults_def summaryItems_def)
  from a b d show ?thesis
    by (simp add: segment_Nil zeroSummary_def)
qed

theorem zero_bursts_give_zero_summary_witness:
  "validConfig defaultConfig \<and>
   segment (map (\<lambda>i. real_of_int i / 44100) [44100]) defaultConfig = [] \<and>
   analyze (\<lambda>samples r c. [44100]) [] 44100 defaultConfig =
     Inr \<lparr>shotSet = [44100], burstList = [], summaryValue = zeroSummary\<rparr> \<and>
   displayROFResults
     \<lparr>summary = zeroSummary, bursts = [], peaks = [44100], audioDuration = 2\<rparr> =
     \<lparr>items = [], emptySlots = 6, burstsPanel = NoBurstsDetected\<rparr>"
proof -
  have v: "validConfig defaultConfig"
    by (simp add: validConfig_def defaultConfig_def)
  have s: "segment (map (\<lambda>i. real_of_int i / 44100) [44100]) defaultConfig = []"
    by (simp add: segment_def defaultConfig_def)
  from zero_bursts_give_zero_summary
    [of defaultConfig 44100 "\<lambda>samples r c. [44100]" "[]" "[]"
        "\<lparr>summary = zeroSummary, bursts = [], peaks = [44100], audioDuration = 2\<rparr>"]
    v s
  show ?thesis by simp
qed

end
